theory Spec2Isabelle
  imports Complex_Main "HOL-Library.Log_Nat"
begin

section \<open>Data model of \<open>binance_api_manager.py\<close>\<close>

text \<open>
  The module is one class, \<open>BinanceAPIManager\<close>, whose methods talk to the exchange
  through \<open>self.BinanceClient\<close>, write to \<open>self.logger\<close>, sleep, and raise or catch
  Python exceptions.  The embedding makes each of these explicit:
  \<^item> an exception is a value of \<open>exn\<close>, and a call that may raise returns \<open>exn + 'a\<close>;
  \<^item> Python's \<open>None\<close> is \<open>None\<close> of an \<open>option\<close> type;
  \<^item> every sleep, log line, trade-log call and exchange request is appended to the
    \<open>trace\<close> of the \<open>world\<close>, in the order the code performs them;
  \<^item> the exchange is an arbitrary script: the answer to a request may depend on the
    request and on how many requests were made before it (\<open>tick\<close>);
  \<^item> a \<open>while\<close> loop without bound is a \<open>partial_function\<close> in the option monad:
    the value \<open>None\<close> of the outer option means that the loop never returns.
\<close>

datatype exn =
    BinanceAPIException int
  | RequestException
  | TypeError
  | ZeroDivisionError
  | StopIteration
  | KeyError
  | OverflowError
  | ValueError

text \<open>\<open>except BinanceAPIException\<close> comes first in every handler; every other
  exception falls to \<open>except Exception\<close>.\<close>

fun is_api_exception :: "exn \<Rightarrow> bool" where
  "is_api_exception (BinanceAPIException c) = True"
| "is_api_exception e = False"

record order =
  orderId :: nat

record order_stat =
  status :: string
  cummulativeQuoteQty :: string

type_synonym pydict = "(string \<times> string) list"

text \<open>A value of Python's \<open>float\<close>: a finite number, an infinity or a NaN.  The numbers
  the exchange sends, prices and balances, are finite and are kept as \<open>real\<close>; the
  quantity the module computes from them may be infinite.\<close>

datatype pyfloat = Float real | PosInf | NegInf | NaN

datatype log_msg =
    FailedBuySell
  | LogExn exn
  | UnexpectedError exn
  | LogStat order_stat
  | BuyQty pyfloat
  | LogOrder "order option"
  | Bought string
  | Selling pyfloat string
  | BalanceIs "real option"
  | OrderText
  | WaitingForBinance
  | Sold string

datatype event =
    Sleep nat
  | Info log_msg
  | GetSymbolTicker
  | GetAccount
  | GetSymbolInfo string
  | GetOrder string nat
  | OrderLimitBuy string pyfloat "real option"
  | OrderMarketSell string pyfloat
  | Operation
  | TradeLogNew string string bool
  | SetOrdered "real option" "real option" pyfloat
  | SetComplete string

record world =
  tick :: nat
  trace :: "event list"

definition emit :: "event \<Rightarrow> world \<Rightarrow> world" where
  "emit ev w = w\<lparr>trace := trace w @ [ev]\<rparr>"

definition sleep :: "nat \<Rightarrow> world \<Rightarrow> world" where
  "sleep d w = emit (Sleep d) w"

definition info :: "log_msg \<Rightarrow> world \<Rightarrow> world" where
  "info m w = emit (Info m) w"

text \<open>A request to the exchange is recorded and moves the script on by one.\<close>

definition request :: "event \<Rightarrow> world \<Rightarrow> world" where
  "request ev w = (emit ev w)\<lparr>tick := Suc (tick w)\<rparr>"

text \<open>The methods of \<open>self.BinanceClient\<close> the module calls.  The first argument is
  the number of requests made before this one.  Prices and balances are the numbers
  that \<open>float(...)\<close> reads from the exchange's strings.\<close>

record BinanceClient =
  get_symbol_ticker :: "nat \<Rightarrow> exn + (string \<times> real) list"
  get_account :: "nat \<Rightarrow> exn + (string \<times> real) list"
  get_symbol_info :: "nat \<Rightarrow> string \<Rightarrow> exn + pydict list option"
  get_order :: "nat \<Rightarrow> string \<Rightarrow> nat \<Rightarrow> exn + order_stat"
  order_limit_buy :: "nat \<Rightarrow> string \<Rightarrow> pyfloat \<Rightarrow> real option \<Rightarrow> exn + order option"
  order_market_sell :: "nat \<Rightarrow> string \<Rightarrow> pyfloat \<Rightarrow> exn + order option"

section \<open>Price and balance lookups\<close>

text \<open>\<open>get_market_ticker_price\<close>: the price of the first ticker with the symbol,
  \<open>None\<close> when there is none.\<close>

definition get_market_ticker_price ::
  "BinanceClient \<Rightarrow> string \<Rightarrow> world \<Rightarrow> (exn + real option) \<times> world" where
  "get_market_ticker_price C ticker_symbol w =
     (case get_symbol_ticker C (tick w) of
        Inl e \<Rightarrow> (Inl e, request GetSymbolTicker w)
      | Inr tickers \<Rightarrow> (Inr (map_of tickers ticker_symbol), request GetSymbolTicker w))"

definition get_currency_balance ::
  "BinanceClient \<Rightarrow> string \<Rightarrow> world \<Rightarrow> (exn + real option) \<times> world" where
  "get_currency_balance C currency_symbol w =
     (case get_account C (tick w) of
        Inl e \<Rightarrow> (Inl e, request GetAccount w)
      | Inr balances \<Rightarrow> (Inr (map_of balances currency_symbol), request GetAccount w))"

section \<open>Lot-size resolver\<close>

text \<open>\<open>str.find\<close> for a one-character needle: the index of its first occurrence,
  \<open>-1\<close> when it does not occur.\<close>

fun find_from :: "char \<Rightarrow> string \<Rightarrow> int \<Rightarrow> int" where
  "find_from c [] i = - 1"
| "find_from c (x # xs) i = (if x = c then i else find_from c xs (i + 1))"

definition str_find :: "string \<Rightarrow> char \<Rightarrow> int" where
  "str_find s c = find_from c s 0"

text \<open>Subscripting a dictionary raises \<open>KeyError\<close> on a missing key.\<close>

definition getitem :: "pydict \<Rightarrow> string \<Rightarrow> exn + string" where
  "getitem d k = (case map_of d k of None \<Rightarrow> Inl KeyError | Some v \<Rightarrow> Inr v)"

text \<open>\<open>next(_filter for _filter in ... if _filter['filterType'] == filter_type)\<close>:
  the first matching filter, \<open>StopIteration\<close> when the generator is exhausted.\<close>

fun next_filter :: "pydict list \<Rightarrow> string \<Rightarrow> exn + pydict" where
  "next_filter [] filter_type = Inl StopIteration"
| "next_filter (f # fs) filter_type =
     (case getitem f ''filterType'' of
        Inl e \<Rightarrow> Inl e
      | Inr t \<Rightarrow> if t = filter_type then Inr f else next_filter fs filter_type)"

text \<open>\<open>get_symbol_info\<close> answers \<open>None\<close> for an unknown symbol; subscripting it with
  \<open>['filters']\<close> is then a \<open>TypeError\<close>.\<close>

definition get_symbol_filter ::
  "BinanceClient \<Rightarrow> string \<Rightarrow> string \<Rightarrow> string \<Rightarrow> world \<Rightarrow> (exn + pydict) \<times> world" where
  "get_symbol_filter C alt_symbol crypto_symbol filter_type w =
     (case get_symbol_info C (tick w) (alt_symbol @ crypto_symbol) of
        Inl e \<Rightarrow> (Inl e, request (GetSymbolInfo (alt_symbol @ crypto_symbol)) w)
      | Inr None \<Rightarrow> (Inl TypeError, request (GetSymbolInfo (alt_symbol @ crypto_symbol)) w)
      | Inr (Some filters) \<Rightarrow>
          (next_filter filters filter_type,
           request (GetSymbolInfo (alt_symbol @ crypto_symbol)) w))"

text \<open>Lines 60 to 63 of \<open>get_alt_tick\<close>, on the step-size string.\<close>

definition tick_of_step_size :: "string \<Rightarrow> int" where
  "tick_of_step_size step_size =
     (if str_find step_size CHR ''1'' = 0 then 1 - str_find step_size CHR ''.''
      else str_find step_size CHR ''1'' - 1)"

definition get_alt_tick ::
  "BinanceClient \<Rightarrow> string \<Rightarrow> string \<Rightarrow> world \<Rightarrow> (exn + int) \<times> world" where
  "get_alt_tick C alt_symbol crypto_symbol w =
     (case get_symbol_filter C alt_symbol crypto_symbol ''LOT_SIZE'' w of
        (Inl e, w') \<Rightarrow> (Inl e, w')
      | (Inr lot_size, w') \<Rightarrow>
          (case getitem lot_size ''stepSize'' of
             Inl e \<Rightarrow> (Inl e, w')
           | Inr step_size \<Rightarrow> (Inr (tick_of_step_size step_size), w')))"

section \<open>Float arithmetic\<close>

text \<open>
  A Python \<open>float\<close> is an IEEE-754 binary64 number, and every float operation returns
  its exact result rounded to the nearest such number, ties to the even significand.
  \<open>binary64 x\<close> is that rounding of the real number \<open>x\<close> with the exponent unbounded
  above: the exponent \<open>e\<close> is the binary order of magnitude of \<open>x\<close>, not below \<open>-1022\<close>
  (the subnormal range, so that tiny results round to \<open>0.0\<close>), and the result is the
  multiple of \<open>2 powi (e - 52)\<close> nearest to \<open>x\<close>.

  The operations below take the rounding as the parameter \<open>rnd\<close>: \<open>binary64\<close> is what the
  interpreter computes, and \<open>exact\<close> is arithmetic without rounding error.  Either way
  a result beyond \<open>float_max\<close>, the largest finite float, is an infinity.
\<close>

definition round_half_even :: "real \<Rightarrow> int" where
  "round_half_even x =
     (let f = \<lfloor>x\<rfloor>; r = x - of_int f
      in if r < 1 / 2 then f else if 1 / 2 < r then f + 1 else if even f then f else f + 1)"

definition binary64 :: "real \<Rightarrow> real" where
  "binary64 x =
     (let e = max (bitlen \<lfloor>\<bar>x\<bar> * 2 ^ 1022\<rfloor> - 1) 0 - 1022;
          ulp = 2 powi (e - 52)
      in of_int (round_half_even (x / ulp)) * ulp)"

definition exact :: "real \<Rightarrow> real" where
  "exact x = x"

definition float_max :: real where
  "float_max = (2 ^ 53 - 1) * 2 ^ 971"

text \<open>The float that an operation returns when its exact result is \<open>x\<close>.\<close>

definition to_float :: "(real \<Rightarrow> real) \<Rightarrow> real \<Rightarrow> pyfloat" where
  "to_float rnd x =
     (if float_max < rnd x then PosInf
      else if rnd x < - float_max then NegInf
      else Float (rnd x))"

text \<open>An \<open>int\<close> operand of a float operation is converted to a float first; an \<open>int\<close>
  beyond the float range raises \<open>OverflowError\<close> (int too large to convert to float).\<close>

definition int_to_float :: "(real \<Rightarrow> real) \<Rightarrow> int \<Rightarrow> exn + real" where
  "int_to_float rnd k =
     (case to_float rnd (of_int k) of
        Float x \<Rightarrow> Inr x
      | PosInf \<Rightarrow> Inl OverflowError
      | NegInf \<Rightarrow> Inl OverflowError
      | NaN \<Rightarrow> Inl OverflowError)"

text \<open>
  \<open>10 ** alt_tick\<close> as the operand of a float operation.  For \<open>alt_tick \<ge> 0\<close> it is the
  \<open>int\<close> \<open>10 ^ alt_tick\<close>, converted; for \<open>alt_tick < 0\<close> Python computes the float power
  \<open>10.0 ** alt_tick\<close>, taken here as the rounded exact power, which underflows to \<open>0.0\<close>
  for \<open>alt_tick \<le> -324\<close> and cannot overflow.
\<close>

definition ten_pow_float :: "(real \<Rightarrow> real) \<Rightarrow> int \<Rightarrow> exn + real" where
  "ten_pow_float rnd alt_tick =
     (if 0 \<le> alt_tick then int_to_float rnd (10 ^ nat alt_tick)
      else Inr (rnd (10 powi alt_tick)))"

text \<open>\<open>x / y\<close> for floats with a finite \<open>y\<close>: \<open>ZeroDivisionError\<close> for \<open>y == 0.0\<close>, whatever
  \<open>x\<close> is; an infinite \<open>x\<close> stays infinite, with the sign of the quotient.\<close>

definition py_truediv :: "(real \<Rightarrow> real) \<Rightarrow> pyfloat \<Rightarrow> real \<Rightarrow> exn + pyfloat" where
  "py_truediv rnd x y =
     (if y = 0 then Inl ZeroDivisionError
      else (case x of
              Float a \<Rightarrow> Inr (to_float rnd (a / y))
            | PosInf \<Rightarrow> Inr (if 0 < y then PosInf else NegInf)
            | NegInf \<Rightarrow> Inr (if 0 < y then NegInf else PosInf)
            | NaN \<Rightarrow> Inr NaN))"

text \<open>\<open>math.floor\<close>: the exact \<open>int\<close> below a finite float; \<open>OverflowError\<close> for an
  infinity (cannot convert float infinity to integer), \<open>ValueError\<close> for a NaN.\<close>

definition py_floor :: "pyfloat \<Rightarrow> exn + int" where
  "py_floor x =
     (case x of
        Float a \<Rightarrow> Inr \<lfloor>a\<rfloor>
      | PosInf \<Rightarrow> Inl OverflowError
      | NegInf \<Rightarrow> Inl OverflowError
      | NaN \<Rightarrow> Inl ValueError)"

section \<open>Quantity normalizer\<close>

text \<open>
  The end of lines 70 and 74, \<open>math.floor(x) / float(10 ** alt_tick)\<close>, with \<open>x\<close> already
  computed and the power of ten already converted: the floor, its conversion to a
  float as the left operand of the division, and the division.
\<close>

definition floor_at_tick :: "(real \<Rightarrow> real) \<Rightarrow> pyfloat \<Rightarrow> real \<Rightarrow> exn + pyfloat" where
  "floor_at_tick rnd x ten_pow =
     (case py_floor x of
        Inl e \<Rightarrow> Inl e
      | Inr k \<Rightarrow>
          (case int_to_float rnd k of
             Inl e \<Rightarrow> Inl e
           | Inr kf \<Rightarrow> py_truediv rnd (Float kf) ten_pow))"

text \<open>
  Line 70, \<open>math.floor(alt_balance * 10 ** alt_tick) / float(10 ** alt_tick)\<close>.
  The product comes first: a \<open>None\<close> balance makes it a \<open>TypeError\<close>, an \<open>int\<close> power
  of ten beyond the float range an \<open>OverflowError\<close>, and a product beyond the float
  range is an infinity, on which \<open>math.floor\<close> raises.  A power of ten that underflowed
  to \<open>0.0\<close> makes the quotient a \<open>ZeroDivisionError\<close>.
\<close>

definition sell_quantity_arith ::
  "(real \<Rightarrow> real) \<Rightarrow> real option \<Rightarrow> int \<Rightarrow> exn + pyfloat" where
  "sell_quantity_arith rnd alt_balance alt_tick =
     (case alt_balance of
        None \<Rightarrow> Inl TypeError
      | Some b \<Rightarrow>
          (case ten_pow_float rnd alt_tick of
             Inl e \<Rightarrow> Inl e
           | Inr ten_pow \<Rightarrow> floor_at_tick rnd (to_float rnd (b * ten_pow)) ten_pow))"

definition sell_quantity ::
  "(real \<Rightarrow> real) \<Rightarrow> BinanceClient \<Rightarrow> string \<Rightarrow> string \<Rightarrow> real option \<Rightarrow> world
     \<Rightarrow> (exn + pyfloat) \<times> world" where
  "sell_quantity rnd C alt_symbol crypto_symbol alt_balance w =
     (case get_alt_tick C alt_symbol crypto_symbol w of
        (Inl e, w') \<Rightarrow> (Inl e, w')
      | (Inr alt_tick, w') \<Rightarrow> (sell_quantity_arith rnd alt_balance alt_tick, w'))"

text \<open>
  Line 74,
  \<open>math.floor(crypto_balance * 10 ** alt_tick / ticker_price) / float(10 ** alt_tick)\<close>:
  the product as in line 70, then the division by the price (a \<open>TypeError\<close> for
  \<open>None\<close>, a \<open>ZeroDivisionError\<close> for \<open>0.0\<close>), then the floor and the division as in
  line 70.
\<close>

definition buy_quantity_arith ::
  "(real \<Rightarrow> real) \<Rightarrow> real option \<Rightarrow> real option \<Rightarrow> int \<Rightarrow> exn + pyfloat" where
  "buy_quantity_arith rnd crypto_balance ticker_price alt_tick =
     (case crypto_balance of
        None \<Rightarrow> Inl TypeError
      | Some b \<Rightarrow>
          (case ten_pow_float rnd alt_tick of
             Inl e \<Rightarrow> Inl e
           | Inr ten_pow \<Rightarrow>
               (case ticker_price of
                  None \<Rightarrow> Inl TypeError
                | Some p \<Rightarrow>
                    (case py_truediv rnd (to_float rnd (b * ten_pow)) p of
                       Inl e \<Rightarrow> Inl e
                     | Inr x \<Rightarrow> floor_at_tick rnd x ten_pow))))"

definition buy_quantity ::
  "(real \<Rightarrow> real) \<Rightarrow> BinanceClient \<Rightarrow> string \<Rightarrow> string \<Rightarrow> real option \<Rightarrow> real option
     \<Rightarrow> world \<Rightarrow> (exn + pyfloat) \<times> world" where
  "buy_quantity rnd C alt_symbol crypto_symbol crypto_balance ticker_price w =
     (case get_alt_tick C alt_symbol crypto_symbol w of
        (Inl e, w') \<Rightarrow> (Inl e, w')
      | (Inr alt_tick, w') \<Rightarrow> (buy_quantity_arith rnd crypto_balance ticker_price alt_tick, w'))"

section \<open>Retry executor\<close>

text \<open>
  \<open>retry\<close>: one \<open>time.sleep(1)\<close>, then the loop \<open>while attempts < 20\<close>.  The wrapped
  operation \<open>func\<close> acts on the world; it may return a value (possibly \<open>None\<close>), raise, or
  never return.  A raise is logged, with the exception itself only when
  \<open>attempts == 0\<close>, and counted.
\<close>

function retry_loop ::
  "(world \<Rightarrow> ((exn + 'r option) \<times> world) option) \<Rightarrow> nat \<Rightarrow> world
     \<Rightarrow> ('r option \<times> world) option" where
  "retry_loop func attempts w =
     (if attempts < 20 then
        (case func w of
           None \<Rightarrow> None
         | Some (Inr v, w') \<Rightarrow> Some (v, w')
         | Some (Inl e, w') \<Rightarrow>
             retry_loop func (attempts + 1)
               (if attempts = 0 then info (LogExn e) (info FailedBuySell w')
                else info FailedBuySell w'))
      else Some (None, w))"
  by pat_completeness auto
termination
  by (relation "measure (\<lambda>(func, attempts, w). 20 - attempts)") auto

declare retry_loop.simps [simp del]

definition retry ::
  "(world \<Rightarrow> ((exn + 'r option) \<times> world) option) \<Rightarrow> world \<Rightarrow> ('r option \<times> world) option" where
  "retry func w = retry_loop func 0 (sleep 1 w)"

text \<open>An operation given by a script: its call number \<open>tick w\<close> decides the outcome,
  and each call is one \<open>Operation\<close> event.\<close>

definition scripted ::
  "(nat \<Rightarrow> exn + 'r option) \<Rightarrow> world \<Rightarrow> ((exn + 'r option) \<times> world) option" where
  "scripted outcome w = Some (outcome (tick w), request Operation w)"

section \<open>Fill tracker\<close>

text \<open>What both handlers of a polling loop do with an exception: the exchange's own
  exception is logged and followed by a pause of \<open>d\<close> seconds, any other exception is
  logged as unexpected.\<close>

definition handle :: "nat \<Rightarrow> exn \<Rightarrow> world \<Rightarrow> world" where
  "handle d e w =
     (if is_api_exception e then sleep d (info (LogExn e) w)
      else info (UnexpectedError e) w)"

text \<open>Lines 77 to 86: the first fetch, repeated until one returns.\<close>

partial_function (option) first_fetch ::
  "BinanceClient \<Rightarrow> string \<Rightarrow> nat \<Rightarrow> world \<Rightarrow> (order_stat \<times> world) option" where
  "first_fetch C symbol order_id w =
     (case get_order C (tick (sleep 3 w)) symbol order_id of
        Inr stat \<Rightarrow> Some (stat, request (GetOrder symbol order_id) (sleep 3 w))
      | Inl e \<Rightarrow>
          first_fetch C symbol order_id
            (handle 10 e (request (GetOrder symbol order_id) (sleep 3 w))))"

text \<open>Lines 90 to 99: the polling loop, left only when the status is \<open>FILLED\<close>.\<close>

partial_function (option) poll ::
  "BinanceClient \<Rightarrow> string \<Rightarrow> nat \<Rightarrow> order_stat \<Rightarrow> world \<Rightarrow> (order_stat \<times> world) option" where
  "poll C symbol order_id stat w =
     (if status stat \<noteq> ''FILLED'' then
        (case get_order C (tick w) symbol order_id of
           Inr stat' \<Rightarrow> poll C symbol order_id stat' (sleep 1 (request (GetOrder symbol order_id) w))
         | Inl e \<Rightarrow> poll C symbol order_id stat (handle 2 e (request (GetOrder symbol order_id) w)))
      else Some (stat, w))"

definition wait_for_order ::
  "BinanceClient \<Rightarrow> string \<Rightarrow> string \<Rightarrow> nat \<Rightarrow> world \<Rightarrow> (order_stat \<times> world) option" where
  "wait_for_order C alt_symbol crypto_symbol order_id w =
     (case first_fetch C (alt_symbol @ crypto_symbol) order_id w of
        None \<Rightarrow> None
      | Some (stat, w') \<Rightarrow>
          poll C (alt_symbol @ crypto_symbol) order_id stat (info (LogStat stat) w'))"

section \<open>Order submitter\<close>

text \<open>
  Lines 123 to 135 of \<open>_buy_alt\<close>: inside the \<open>try\<close>, the price is fetched and the
  limit order is submitted with it; what the exchange returns is logged, and the loop
  ends when it is not \<open>None\<close>.  Every exception is handled and the loop goes round.
\<close>

partial_function (option) buy_loop ::
  "BinanceClient \<Rightarrow> string \<Rightarrow> pyfloat \<Rightarrow> world \<Rightarrow> (order \<times> world) option" where
  "buy_loop C symbol order_quantity w =
     (case get_market_ticker_price C symbol w of
        (Inl e, w1) \<Rightarrow> buy_loop C symbol order_quantity (handle 1 e w1)
      | (Inr price, w1) \<Rightarrow>
          (case order_limit_buy C (tick w1) symbol order_quantity price of
             Inl e \<Rightarrow>
               buy_loop C symbol order_quantity
                 (handle 1 e (request (OrderLimitBuy symbol order_quantity price) w1))
           | Inr None \<Rightarrow>
               buy_loop C symbol order_quantity
                 (info (LogOrder None) (request (OrderLimitBuy symbol order_quantity price) w1))
           | Inr (Some order) \<Rightarrow>
               Some (order,
                 info (LogOrder (Some order))
                   (request (OrderLimitBuy symbol order_quantity price) w1))))"

text \<open>\<open>_buy_alt\<close>.  The two coins are given by their symbols.\<close>

definition priv_buy_alt ::
  "(real \<Rightarrow> real) \<Rightarrow> BinanceClient \<Rightarrow> string \<Rightarrow> string \<Rightarrow> world
     \<Rightarrow> ((exn + order option) \<times> world) option" where
  "priv_buy_alt rnd C alt_symbol crypto_symbol w =
     (case get_currency_balance C alt_symbol (emit (TradeLogNew alt_symbol crypto_symbol False) w) of
        (Inl e, w1) \<Rightarrow> Some (Inl e, w1)
      | (Inr alt_balance, w1) \<Rightarrow>
     (case get_currency_balance C crypto_symbol w1 of
        (Inl e, w2) \<Rightarrow> Some (Inl e, w2)
      | (Inr crypto_balance, w2) \<Rightarrow>
     (case get_market_ticker_price C (alt_symbol @ crypto_symbol) w2 of
        (Inl e, w3) \<Rightarrow> Some (Inl e, w3)
      | (Inr ticker_price, w3) \<Rightarrow>
     (case buy_quantity rnd C alt_symbol crypto_symbol crypto_balance ticker_price w3 of
        (Inl e, w4) \<Rightarrow> Some (Inl e, w4)
      | (Inr order_quantity, w4) \<Rightarrow>
     (case buy_loop C (alt_symbol @ crypto_symbol) order_quantity
             (info (BuyQty order_quantity) w4) of
        None \<Rightarrow> None
      | Some (order, w5) \<Rightarrow>
     (case wait_for_order C alt_symbol crypto_symbol (orderId order)
             (emit (SetOrdered alt_balance crypto_balance order_quantity) w5) of
        None \<Rightarrow> None
      | Some (stat, w6) \<Rightarrow>
          Some (Inr (Some order),
            emit (SetComplete (cummulativeQuoteQty stat)) (info (Bought alt_symbol) w6))))))))"

definition buy_alt ::
  "(real \<Rightarrow> real) \<Rightarrow> BinanceClient \<Rightarrow> string \<Rightarrow> string \<Rightarrow> world
     \<Rightarrow> (order option \<times> world) option" where
  "buy_alt rnd C alt_symbol crypto_symbol w = retry (priv_buy_alt rnd C alt_symbol crypto_symbol) w"

text \<open>
  Lines 165 to 169 of \<open>_sell_alt\<close>: the market order is submitted until the exchange
  returns an order.  There is no \<open>try\<close> here: an exception leaves \<open>_sell_alt\<close>.
\<close>

partial_function (option) sell_loop ::
  "BinanceClient \<Rightarrow> string \<Rightarrow> pyfloat \<Rightarrow> world \<Rightarrow> ((exn + order) \<times> world) option" where
  "sell_loop C symbol order_quantity w =
     (case order_market_sell C (tick w) symbol order_quantity of
        Inl e \<Rightarrow> Some (Inl e, request (OrderMarketSell symbol order_quantity) w)
      | Inr None \<Rightarrow> sell_loop C symbol order_quantity (request (OrderMarketSell symbol order_quantity) w)
      | Inr (Some order) \<Rightarrow> Some (Inr order, request (OrderMarketSell symbol order_quantity) w))"

text \<open>\<open>new_balance >= alt_balance\<close>: comparing with \<open>None\<close> is a \<open>TypeError\<close>.\<close>

definition py_ge :: "real option \<Rightarrow> real option \<Rightarrow> exn + bool" where
  "py_ge x y =
     (case x of
        None \<Rightarrow> Inl TypeError
      | Some a \<Rightarrow> (case y of None \<Rightarrow> Inl TypeError | Some b \<Rightarrow> Inr (b \<le> a)))"

text \<open>Lines 183 and 184: \<open>while new_balance >= alt_balance\<close>, fetch the balance again.
  The fetch is not guarded: an exception leaves \<open>_sell_alt\<close>.\<close>

partial_function (option) confirm_loop ::
  "BinanceClient \<Rightarrow> string \<Rightarrow> real option \<Rightarrow> real option \<Rightarrow> world
     \<Rightarrow> ((exn + real option) \<times> world) option" where
  "confirm_loop C alt_symbol alt_balance new_balance w =
     (case py_ge new_balance alt_balance of
        Inl e \<Rightarrow> Some (Inl e, w)
      | Inr again \<Rightarrow>
          if again then
            (case get_currency_balance C alt_symbol w of
               (Inl e, w') \<Rightarrow> Some (Inl e, w')
             | (Inr new_balance', w') \<Rightarrow> confirm_loop C alt_symbol alt_balance new_balance' w')
          else Some (Inr new_balance, w))"

text \<open>Lines 182 to 184: the first fetch of the new balance, then the loop.\<close>

definition confirm_balance ::
  "BinanceClient \<Rightarrow> string \<Rightarrow> real option \<Rightarrow> world \<Rightarrow> ((exn + real option) \<times> world) option" where
  "confirm_balance C alt_symbol alt_balance w =
     (case get_currency_balance C alt_symbol w of
        (Inl e, w') \<Rightarrow> Some (Inl e, w')
      | (Inr new_balance, w') \<Rightarrow> confirm_loop C alt_symbol alt_balance new_balance w')"

text \<open>\<open>_sell_alt\<close>.\<close>

definition priv_sell_alt ::
  "(real \<Rightarrow> real) \<Rightarrow> BinanceClient \<Rightarrow> string \<Rightarrow> string \<Rightarrow> world
     \<Rightarrow> ((exn + order option) \<times> world) option" where
  "priv_sell_alt rnd C alt_symbol crypto_symbol w =
     (case get_currency_balance C alt_symbol (emit (TradeLogNew alt_symbol crypto_symbol True) w) of
        (Inl e, w1) \<Rightarrow> Some (Inl e, w1)
      | (Inr alt_balance, w1) \<Rightarrow>
     (case get_currency_balance C crypto_symbol w1 of
        (Inl e, w2) \<Rightarrow> Some (Inl e, w2)
      | (Inr crypto_balance, w2) \<Rightarrow>
     (case sell_quantity rnd C alt_symbol crypto_symbol alt_balance w2 of
        (Inl e, w3) \<Rightarrow> Some (Inl e, w3)
      | (Inr order_quantity, w3) \<Rightarrow>
     (case sell_loop C (alt_symbol @ crypto_symbol) order_quantity
             (info (BalanceIs alt_balance) (info (Selling order_quantity alt_symbol) w3)) of
        None \<Rightarrow> None
      | Some (Inl e, w4) \<Rightarrow> Some (Inl e, w4)
      | Some (Inr order, w4) \<Rightarrow>
     (case wait_for_order C alt_symbol crypto_symbol (orderId order)
             (sleep 5 (info WaitingForBinance
               (emit (SetOrdered alt_balance crypto_balance order_quantity)
                 (info (LogOrder (Some order)) (info OrderText w4))))) of
        None \<Rightarrow> None
      | Some (stat, w5) \<Rightarrow>
     (case confirm_balance C alt_symbol alt_balance w5 of
        None \<Rightarrow> None
      | Some (Inl e, w6) \<Rightarrow> Some (Inl e, w6)
      | Some (Inr new_balance, w6) \<Rightarrow>
          Some (Inr (Some order),
            emit (SetComplete (cummulativeQuoteQty stat)) (info (Sold alt_symbol) w6))))))))"

definition sell_alt ::
  "(real \<Rightarrow> real) \<Rightarrow> BinanceClient \<Rightarrow> string \<Rightarrow> string \<Rightarrow> world
     \<Rightarrow> (order option \<times> world) option" where
  "sell_alt rnd C alt_symbol crypto_symbol w = retry (priv_sell_alt rnd C alt_symbol crypto_symbol) w"

section \<open>Scripts and observations used in the statements\<close>

text \<open>The events of \<open>n\<close> consecutive failing attempts of \<open>retry\<close> on a scripted operation,
  the first being call number \<open>t\<close> of the script and attempt number \<open>a\<close> of the loop.\<close>

fun failures :: "(nat \<Rightarrow> exn + 'r option) \<Rightarrow> nat \<Rightarrow> nat \<Rightarrow> nat \<Rightarrow> event list" where
  "failures outcome t a 0 = []"
| "failures outcome t a (Suc n) =
     [Operation, Info FailedBuySell]
       @ (if a = 0 then [Info (LogExn (projl (outcome t)))] else [])
       @ failures outcome (Suc t) (Suc a) n"

text \<open>A log line that prints an exception itself (\<open>self.logger.info(e)\<close>).\<close>

fun is_detail :: "event \<Rightarrow> bool" where
  "is_detail (Info (LogExn e)) = True"
| "is_detail ev = False"

definition start :: world where
  "start = \<lparr>tick = 0, trace = []\<rparr>"

definition fails_twice :: "nat \<Rightarrow> exn + nat option" where
  "fails_twice i = (if i < 2 then Inl RequestException else Inr (Some 7))"

definition always_fails :: "nat \<Rightarrow> exn + nat option" where
  "always_fails i = Inl (BinanceAPIException (- 1021))"

definition returns_none :: "nat \<Rightarrow> exn + nat option" where
  "returns_none i = Inr None"

text \<open>The status fetch number \<open>i\<close> of the script answers with the status \<open>FILLED\<close>.\<close>

definition filled_at :: "BinanceClient \<Rightarrow> string \<Rightarrow> nat \<Rightarrow> nat \<Rightarrow> bool" where
  "filled_at C symbol order_id i =
     (case get_order C i symbol order_id of
        Inl e \<Rightarrow> False
      | Inr stat \<Rightarrow> status stat = ''FILLED'')"

text \<open>An exchange that answers the status fetches with the given statuses, in order,
  and raises on everything else.\<close>

definition statuses_client :: "string list \<Rightarrow> BinanceClient" where
  "statuses_client xs =
     \<lparr>get_symbol_ticker = (\<lambda>i. Inl RequestException),
      get_account = (\<lambda>i. Inl RequestException),
      get_symbol_info = (\<lambda>i s. Inl RequestException),
      get_order = (\<lambda>i s oid.
         if i < length xs then Inr \<lparr>status = xs ! i, cummulativeQuoteQty = ''0.1234''\<rparr>
         else Inl RequestException),
      order_limit_buy = (\<lambda>i s q p. Inl RequestException),
      order_market_sell = (\<lambda>i s q. Inl RequestException)\<rparr>"

text \<open>What the balance fetch number \<open>i\<close> of the script gives for a currency.\<close>

definition balance_at :: "BinanceClient \<Rightarrow> string \<Rightarrow> nat \<Rightarrow> exn + real option" where
  "balance_at C currency_symbol i =
     (case get_account C i of
        Inl e \<Rightarrow> Inl e
      | Inr balances \<Rightarrow> Inr (map_of balances currency_symbol))"

text \<open>The end-to-end scenario of the specification: pair ALT/BTC, step size
  \<open>"0.00100000"\<close>, alt balance 12.3456, the order filled at the second status fetch, the
  new balance visible at the third balance fetch after the fill.\<close>

definition sell_client :: BinanceClient where
  "sell_client =
     \<lparr>get_symbol_ticker = (\<lambda>i. Inr [(''ALTBTC'', 0.01)]),
      get_account = (\<lambda>i. Inr [(''BTC'', 1), (''ALT'', if i < 8 then 12.3456 else 0.0006)]),
      get_symbol_info = (\<lambda>i s. Inr (Some
         [[(''filterType'', ''PRICE_FILTER''), (''tickSize'', ''0.00000100'')],
          [(''filterType'', ''LOT_SIZE''), (''stepSize'', ''0.00100000'')]])),
      get_order = (\<lambda>i s oid.
         Inr \<lparr>status = (if i < 5 then ''NEW'' else ''FILLED''), cummulativeQuoteQty = ''0.1234''\<rparr>),
      order_limit_buy = (\<lambda>i s q p. Inr (Some \<lparr>orderId = 2\<rparr>)),
      order_market_sell = (\<lambda>i s q. Inr (Some \<lparr>orderId = 1\<rparr>))\<rparr>"

text \<open>An exchange that cannot be reached: every request raises.\<close>

definition down_client :: BinanceClient where
  "down_client =
     \<lparr>get_symbol_ticker = (\<lambda>i. Inl RequestException),
      get_account = (\<lambda>i. Inl RequestException),
      get_symbol_info = (\<lambda>i s. Inl RequestException),
      get_order = (\<lambda>i s oid. Inl RequestException),
      order_limit_buy = (\<lambda>i s q p. Inl RequestException),
      order_market_sell = (\<lambda>i s q. Inl RequestException)\<rparr>"

text \<open>What the ticker request number \<open>i\<close> gives for a pair, and what \<open>get_alt_tick\<close>
  resolves when its request is number \<open>i\<close>.\<close>

definition price_at :: "BinanceClient \<Rightarrow> string \<Rightarrow> nat \<Rightarrow> exn + real option" where
  "price_at C ticker_symbol i =
     (case get_symbol_ticker C i of
        Inl e \<Rightarrow> Inl e
      | Inr tickers \<Rightarrow> Inr (map_of tickers ticker_symbol))"

definition tick_at :: "BinanceClient \<Rightarrow> string \<Rightarrow> string \<Rightarrow> nat \<Rightarrow> exn + int" where
  "tick_at C alt_symbol crypto_symbol i =
     fst (get_alt_tick C alt_symbol crypto_symbol \<lparr>tick = i, trace = []\<rparr>)"

text \<open>An exchange as \<open>sell_client\<close>, but whose ticker gives the price 0 for the pair.\<close>

definition zero_price_client :: BinanceClient where
  "zero_price_client = sell_client\<lparr>get_symbol_ticker := (\<lambda>i. Inr [(''ALTBTC'', 0)])\<rparr>"


text \<open>The world after \<open>n\<close> consecutive runs of \<open>func\<close> that all raise, each followed by
  the log lines of \<open>retry\<close> for attempt number \<open>attempts\<close> and on; \<open>None\<close> when one
  of these runs returns a value or does not return.\<close>

fun raising_runs ::
  "(world \<Rightarrow> ((exn + 'r option) \<times> world) option) \<Rightarrow> nat \<Rightarrow> nat \<Rightarrow> world \<Rightarrow> world option" where
  "raising_runs func 0 attempts w = Some w"
| "raising_runs func (Suc n) attempts w =
     (case func w of
        None \<Rightarrow> None
      | Some (Inr v, w') \<Rightarrow> None
      | Some (Inl e, w') \<Rightarrow>
          raising_runs func n (attempts + 1)
            (if attempts = 0 then info (LogExn e) (info FailedBuySell w')
             else info FailedBuySell w'))"


section \<open>Properties of the lot-size resolver\<close>

lemma find_from_skip:
  "c \<notin> set pre \<Longrightarrow> find_from c (pre @ c # rest) i = i + int (length pre)"
  by (induction pre arbitrary: i) auto

lemma str_find_skip: "c \<notin> set pre \<Longrightarrow> str_find (pre @ c # rest) c = int (length pre)"
  by (simp add: str_find_def find_from_skip)

lemma str_find_head: "str_find (c # rest) c = 0"
  by (simp add: str_find_def)

text \<open>
  C1.  For the step size \<open>10 ^ k\<close>, written as \<open>1\<close>, \<open>k\<close> zeros, a decimal point and any
  number of zeros, the tick exponent is \<open>- k\<close>; for the step size \<open>10 powi (- d)\<close> with
  \<open>d \<ge> 1\<close>, written as \<open>0.\<close>, \<open>d - 1\<close> zeros, \<open>1\<close> and any number of zeros, it is \<open>d\<close>.
  In particular \<open>"0.00100000"\<close> gives 3, \<open>"1.00000000"\<close> gives 0 and \<open>"100.00000000"\<close>
  gives -2.
\<close>

theorem tick_of_step_size_powers:
  "tick_of_step_size (CHR ''1'' # replicate k CHR ''0'' @ CHR ''.'' # replicate m CHR ''0'') = - int k
   \<and> (1 \<le> d \<longrightarrow>
        tick_of_step_size (''0.'' @ replicate (d - 1) CHR ''0'' @ CHR ''1'' # replicate m CHR ''0'') = int d)
   \<and> tick_of_step_size ''0.00100000'' = 3
   \<and> tick_of_step_size ''1.00000000'' = 0
   \<and> tick_of_step_size ''100.00000000'' = - 2"
proof (intro conjI impI)
  have dot: "str_find (CHR ''1'' # replicate k CHR ''0'' @ CHR ''.'' # replicate m CHR ''0'') CHR ''.''
      = int (Suc k)"
    using str_find_skip [of "CHR ''.''" "CHR ''1'' # replicate k CHR ''0''" "replicate m CHR ''0''"]
    by simp
  show "tick_of_step_size (CHR ''1'' # replicate k CHR ''0'' @ CHR ''.'' # replicate m CHR ''0'') = - int k"
    unfolding tick_of_step_size_def dot by (simp add: str_find_head)
next
  assume "1 \<le> d"
  have one: "str_find (''0.'' @ replicate (d - 1) CHR ''0'' @ CHR ''1'' # replicate m CHR ''0'') CHR ''1''
      = int (Suc d)"
    using str_find_skip [of "CHR ''1''" "''0.'' @ replicate (d - 1) CHR ''0''" "replicate m CHR ''0''"]
      \<open>1 \<le> d\<close> by simp
  show "tick_of_step_size (''0.'' @ replicate (d - 1) CHR ''0'' @ CHR ''1'' # replicate m CHR ''0'') = int d"
    unfolding tick_of_step_size_def one by simp
qed (simp_all add: tick_of_step_size_def str_find_def)

theorem tick_of_step_size_powers_witness:
  "tick_of_step_size (CHR ''1'' # replicate 2 CHR ''0'' @ CHR ''.'' # replicate 8 CHR ''0'') = - 2
   \<and> (1::nat) \<le> 3
   \<and> tick_of_step_size (''0.'' @ replicate (3 - 1) CHR ''0'' @ CHR ''1'' # replicate 8 CHR ''0'') = 3"
  using tick_of_step_size_powers [of 2 8 3] by simp

section \<open>Properties of the float operations\<close>

lemma float_max_ge: "2 ^ 1023 \<le> float_max"
proof -
  have "float_max = (2 ^ 53 - 1) * 2 ^ 971" by (simp add: float_max_def)
  also have "\<dots> \<ge> 2 ^ 52 * (2 ^ 971 :: real)"
    by (intro mult_right_mono) simp_all
  finally show ?thesis by (simp flip: power_add)
qed

lemma to_float_exact: "\<bar>x\<bar> \<le> 2 ^ 1023 \<Longrightarrow> to_float exact x = Float x"
  using float_max_ge by (auto simp: to_float_def exact_def)

lemma int_to_float_exact: "\<bar>real_of_int k\<bar> \<le> 2 ^ 1023 \<Longrightarrow> int_to_float exact k = Inr (of_int k)"
  by (simp add: int_to_float_def to_float_exact)

section \<open>Rounding in the quantity normalizer\<close>

lemma bitlen_eqI:
  assumes "2 ^ n \<le> a" "a < 2 ^ Suc n"
  shows "bitlen a = int n + 1"
proof (rule antisym)
  show "bitlen a \<le> int n + 1"
    using assms(2) by (simp add: bitlen_le_iff_power nat_add_distrib)
  show "int n + 1 \<le> bitlen a"
    using assms(1) by (simp add: bitlen_ge_iff_power nat_add_distrib)
qed

lemma binary64_eq:
  assumes "2 powi e \<le> \<bar>x\<bar>" "\<bar>x\<bar> < 2 powi (e + 1)" "- 1022 \<le> e"
  shows "binary64 x = of_int (round_half_even (x / 2 powi (e - 52))) * 2 powi (e - 52)"
proof -
  define n where "n = nat (e + 1022)"
  have e: "e + 1022 = int n" using assms(3) by (simp add: n_def)
  have p: "(2::real) powi e * 2 ^ 1022 = 2 ^ n"
    using e by (metis power_int_add numeral_eq_iff power_int_of_nat semiring_norm(85)
        of_nat_numeral zero_neq_numeral)
  have p1: "(2::real) powi (e + 1) * 2 ^ 1022 = 2 ^ Suc n"
  proof -
    have "(2::real) powi (e + 1) = 2 powi e * 2" by (simp add: power_int_add)
    then show ?thesis using p by simp
  qed
  have lo: "(2::real) ^ n \<le> \<bar>x\<bar> * 2 ^ 1022"
    using assms(1) p by (metis mult_right_mono zero_le_numeral zero_le_power)
  have hi: "\<bar>x\<bar> * 2 ^ 1022 < (2::real) ^ Suc n"
    using assms(2) p1 by (metis mult_strict_right_mono zero_less_numeral zero_less_power)
  have "(2::int) ^ n \<le> \<lfloor>\<bar>x\<bar> * 2 ^ 1022\<rfloor>"
    using lo by (simp add: le_floor_iff)
  moreover have "\<lfloor>\<bar>x\<bar> * 2 ^ 1022\<rfloor> < (2::int) ^ Suc n"
    using hi by (simp add: floor_less_iff)
  ultimately have "bitlen \<lfloor>\<bar>x\<bar> * 2 ^ 1022\<rfloor> = int n + 1" by (rule bitlen_eqI)
  then have "max (bitlen \<lfloor>\<bar>x\<bar> * 2 ^ 1022\<rfloor> - 1) 0 - 1022 = e"
    using e by simp
  then show ?thesis by (simp add: binary64_def Let_def)
qed

lemma binary64_ten_pow: "binary64 100000 = 100000"
  by (subst binary64_eq [of 16]) (simp_all add: round_half_even_def)

lemma binary64_product: "binary64 (3106353705121407 / 2 ^ 25 * 100000) = 9257655457024"
  by (subst binary64_eq [of 43]) (simp_all add: round_half_even_def)

lemma binary64_floor: "binary64 9257655457024 = 9257655457024"
  by (subst binary64_eq [of 43]) (simp_all add: round_half_even_def)

lemma binary64_quotient: "binary64 (9257655457024 / 100000) = 6212707410242815 / 2 ^ 26"
  by (subst binary64_eq [of 26]) (simp_all add: round_half_even_def)

lemma binary64_balance: "binary64 92576554.57023999 = 3106353705121407 / 2 ^ 25"
  by (subst binary64_eq [of 26]) (simp_all add: round_half_even_def)


lemma to_float_finite: "\<bar>rnd x\<bar> \<le> float_max \<Longrightarrow> to_float rnd x = Float (rnd x)"
  by (auto simp: to_float_def)

lemma to_float_eq:
  assumes "rnd x = y" "- (2 ^ 1023) \<le> y" "y \<le> 2 ^ 1023"
  shows "to_float rnd x = Float y"
proof -
  have "\<bar>rnd x\<bar> \<le> float_max" using assms float_max_ge by linarith
  then have "to_float rnd x = Float (rnd x)" by (rule to_float_finite)
  then show ?thesis by (simp add: assms(1))
qed

lemma int_to_float_eq:
  assumes "rnd (of_int k) = y" "- (2 ^ 1023) \<le> y" "y \<le> 2 ^ 1023"
  shows "int_to_float rnd k = Inr y"
proof -
  have "to_float rnd (of_int k) = Float y" using assms by (rule to_float_eq)
  then show ?thesis by (simp add: int_to_float_def)
qed

text \<open>
  C2 does not hold of \<open>sell_quantity\<close> as the interpreter computes it.  The balance
  92576554.57023999 is the float \<open>3106353705121407 / 2 ^ 25\<close>, and the step size
  \<open>"0.00001000"\<close> gives the tick exponent 5.  The product of the balance and 100000
  is rounded up to the whole number 9257655457024, which the floor keeps, and its
  quotient by 100000.0 is the float \<open>6212707410242815 / 2 ^ 26\<close>, printed
  92576554.57024: the quantity returned is greater than the balance.
\<close>

theorem sell_quantity_rounds_up:
  "sell_quantity_arith binary64 (Some (3106353705121407 / 2 ^ 25)) 5
     = Inr (Float (6212707410242815 / 2 ^ 26))
   \<and> (3106353705121407 / 2 ^ 25 :: real) < 6212707410242815 / 2 ^ 26
   \<and> binary64 92576554.57023999 = 3106353705121407 / 2 ^ 25
   \<and> tick_of_step_size ''0.00001000'' = 5"
proof -
  have "int_to_float binary64 100000 = Inr 100000"
    by (rule int_to_float_eq [where y = 100000]) (simp_all add: binary64_ten_pow)
  then have t: "ten_pow_float binary64 5 = Inr 100000"
    by (simp add: ten_pow_float_def)
  have m: "to_float binary64 (3106353705121407 / 2 ^ 25 * 100000) = Float 9257655457024"
    by (rule to_float_eq, rule binary64_product) simp_all
  have f: "py_floor (Float 9257655457024) = Inr 9257655457024"
    by (simp add: py_floor_def)
  have k: "int_to_float binary64 9257655457024 = Inr 9257655457024"
    by (rule int_to_float_eq [where y = 9257655457024]) (simp_all add: binary64_floor)
  have q: "to_float binary64 (9257655457024 / 100000) = Float (6212707410242815 / 2 ^ 26)"
    by (rule to_float_eq, rule binary64_quotient) simp_all
  have d: "py_truediv binary64 (Float 9257655457024) 100000
      = Inr (Float (6212707410242815 / 2 ^ 26))"
    unfolding py_truediv_def by (simp only: pyfloat.case q) simp
  have "floor_at_tick binary64 (Float 9257655457024) 100000
      = Inr (Float (6212707410242815 / 2 ^ 26))"
    unfolding floor_at_tick_def by (simp only: f k d sum.case)
  then have "sell_quantity_arith binary64 (Some (3106353705121407 / 2 ^ 25)) 5
     = Inr (Float (6212707410242815 / 2 ^ 26))"
    unfolding sell_quantity_arith_def by (simp only: option.case t sum.case m)
  moreover have "(3106353705121407 / 2 ^ 25 :: real) < 6212707410242815 / 2 ^ 26" by simp
  moreover have "tick_of_step_size ''0.00001000'' = 5"
    by (simp add: tick_of_step_size_def str_find_def)
  ultimately show ?thesis using binary64_balance by blast
qed







section \<open>Properties of the retry executor\<close>

lemma retry_loop_succeeds:
  "\<forall>i<k. isl (outcome (tick w + i)) \<Longrightarrow> outcome (tick w + k) = Inr v \<Longrightarrow> a + k < 20 \<Longrightarrow>
   retry_loop (scripted outcome) a w
     = Some (v, w\<lparr>tick := tick w + k + 1,
                  trace := trace w @ failures outcome (tick w) a k @ [Operation]\<rparr>)"
proof (induction k arbitrary: a w)
  case 0
  then show ?case
    by (subst retry_loop.simps) (simp add: scripted_def request_def emit_def)
next
  case (Suc k)
  from Suc.prems(1) have "isl (outcome (tick w))" by force
  then obtain e where e: "outcome (tick w) = Inl e" by (cases "outcome (tick w)") auto
  let ?w = "if a = 0 then info (LogExn e) (info FailedBuySell (request Operation w))
            else info FailedBuySell (request Operation w)"
  have t: "tick ?w = Suc (tick w)" by (simp add: info_def emit_def request_def)
  have "\<forall>i<k. isl (outcome (tick ?w + i))" using Suc.prems(1) t by auto
  moreover have "outcome (tick ?w + k) = Inr v" using Suc.prems(2) t by simp
  moreover have "Suc a + k < 20" using Suc.prems(3) by simp
  ultimately have IH: "retry_loop (scripted outcome) (Suc a) ?w
     = Some (v, ?w\<lparr>tick := tick ?w + k + 1,
                  trace := trace ?w @ failures outcome (tick ?w) (Suc a) k @ [Operation]\<rparr>)"
    by (rule Suc.IH)
  have "retry_loop (scripted outcome) a w = retry_loop (scripted outcome) (Suc a) ?w"
    using Suc.prems(3) e by (subst retry_loop.simps) (simp add: scripted_def)
  then show ?case
    unfolding IH using e by (simp add: info_def emit_def request_def)
qed

lemma retry_loop_exhausts:
  "\<forall>i<n. isl (outcome (tick w + i)) \<Longrightarrow> a + n = 20 \<Longrightarrow>
   retry_loop (scripted outcome) a w
     = Some (None, w\<lparr>tick := tick w + n, trace := trace w @ failures outcome (tick w) a n\<rparr>)"
proof (induction n arbitrary: a w)
  case 0
  then show ?case by (subst retry_loop.simps) simp
next
  case (Suc n)
  from Suc.prems(1) have "isl (outcome (tick w))" by force
  then obtain e where e: "outcome (tick w) = Inl e" by (cases "outcome (tick w)") auto
  let ?w = "if a = 0 then info (LogExn e) (info FailedBuySell (request Operation w))
            else info FailedBuySell (request Operation w)"
  have t: "tick ?w = Suc (tick w)" by (simp add: info_def emit_def request_def)
  have "\<forall>i<n. isl (outcome (tick ?w + i))" using Suc.prems(1) t by auto
  moreover have "Suc a + n = 20" using Suc.prems(2) by simp
  ultimately have IH: "retry_loop (scripted outcome) (Suc a) ?w
     = Some (None, ?w\<lparr>tick := tick ?w + n,
                  trace := trace ?w @ failures outcome (tick ?w) (Suc a) n\<rparr>)"
    by (rule Suc.IH)
  have "retry_loop (scripted outcome) a w = retry_loop (scripted outcome) (Suc a) ?w"
    using Suc.prems(2) e by (subst retry_loop.simps) (simp add: scripted_def)
  then show ?case
    unfolding IH using e by (simp add: info_def emit_def request_def)
qed

lemma count_failures_Operation: "count_list (failures outcome t a n) Operation = n"
  by (induction n arbitrary: t a) auto

lemma detail_failures_later: "0 < a \<Longrightarrow> filter is_detail (failures outcome t a n) = []"
  by (induction n arbitrary: t a) auto

lemma detail_failures_first:
  "0 < n \<Longrightarrow> filter is_detail (failures outcome t 0 n) = [Info (LogExn (projl (outcome t)))]"
  by (cases n) (auto simp: detail_failures_later)

lemma no_sleep_failures: "Sleep d \<notin> set (failures outcome t a n)"
  by (induction n arbitrary: t a) auto


lemma retry_cases:
  fixes outcome :: "nat \<Rightarrow> exn + 'r option"
  obtains (exhausted) "\<forall>i<20. isl (outcome (t + i))"
  | (returned) k v where "k < 20" "\<forall>i<k. isl (outcome (t + i))" "outcome (t + k) = Inr v"
proof (cases "\<forall>i<20. isl (outcome (t + i))")
  case True
  then show ?thesis by (rule exhausted)
next
  case False
  define k where "k = (LEAST i. \<not> isl (outcome (t + i)))"
  from False obtain j where j: "j < 20" "\<not> isl (outcome (t + j))" by auto
  have nk: "\<not> isl (outcome (t + k))" unfolding k_def using j(2) by (rule LeastI)
  have "k \<le> j" unfolding k_def using j(2) by (rule Least_le)
  then have "k < 20" using j(1) by simp
  moreover have "\<forall>i<k. isl (outcome (t + i))"
    unfolding k_def using not_less_Least by blast
  moreover obtain v where "outcome (t + k) = Inr v"
    using nk by (cases "outcome (t + k)") auto
  ultimately show ?thesis by (rule returned)
qed

lemma retry_succeeds:
  assumes "\<forall>i<k. isl (outcome (tick w + i))" "outcome (tick w + k) = Inr v" "k < 20"
  shows "retry (scripted outcome) w
     = Some (v, w\<lparr>tick := tick w + k + 1,
                  trace := trace w @ Sleep 1 # failures outcome (tick w) 0 k @ [Operation]\<rparr>)"
  using retry_loop_succeeds [of k outcome "sleep 1 w" v 0] assms
  by (simp add: retry_def sleep_def emit_def)

lemma retry_exhausts:
  assumes "\<forall>i<20. isl (outcome (tick w + i))"
  shows "retry (scripted outcome) w
     = Some (None, w\<lparr>tick := tick w + 20,
                  trace := trace w @ Sleep 1 # failures outcome (tick w) 0 20\<rparr>)"
  using retry_loop_exhausts [of 20 outcome "sleep 1 w" 0] assms
  by (simp add: retry_def sleep_def emit_def)

text \<open>
  C3.  \<open>retry\<close> on an operation whose calls follow a script.  If the first call that
  does not raise is call \<open>k + 1\<close> with \<open>k < 20\<close>, \<open>retry\<close> returns the value of that call
  and has made exactly \<open>k + 1\<close> calls.  If each of the 20 calls raises, \<open>retry\<close> makes
  exactly 20 calls, logs an exception itself exactly once, the one of the first call,
  and returns \<open>None\<close> without raising.
\<close>

theorem retry_contract:
  "((\<forall>i<k. isl (outcome (tick w + i))) \<and> outcome (tick w + k) = Inr v \<and> k < 20 \<longrightarrow>
      (\<exists>w'. retry (scripted outcome) w = Some (v, w') \<and> tick w' = tick w + (k + 1)
         \<and> count_list (trace w') Operation = count_list (trace w) Operation + (k + 1)))
   \<and> ((\<forall>i<20. isl (outcome (tick w + i))) \<longrightarrow>
      (\<exists>w'. retry (scripted outcome) w = Some (None, w') \<and> tick w' = tick w + 20
         \<and> count_list (trace w') Operation = count_list (trace w) Operation + 20
         \<and> filter is_detail (drop (length (trace w)) (trace w'))
             = [Info (LogExn (projl (outcome (tick w))))]))"
proof (intro conjI impI)
  assume "(\<forall>i<k. isl (outcome (tick w + i))) \<and> outcome (tick w + k) = Inr v \<and> k < 20"
  then have "retry (scripted outcome) w
     = Some (v, w\<lparr>tick := tick w + k + 1,
                  trace := trace w @ Sleep 1 # failures outcome (tick w) 0 k @ [Operation]\<rparr>)"
    by (intro retry_succeeds) auto
  then show "\<exists>w'. retry (scripted outcome) w = Some (v, w') \<and> tick w' = tick w + (k + 1)
         \<and> count_list (trace w') Operation = count_list (trace w) Operation + (k + 1)"
    by (simp add: count_failures_Operation)
next
  assume "\<forall>i<20. isl (outcome (tick w + i))"
  then have "retry (scripted outcome) w
     = Some (None, w\<lparr>tick := tick w + 20,
                  trace := trace w @ Sleep 1 # failures outcome (tick w) 0 20\<rparr>)"
    by (rule retry_exhausts)
  then show "\<exists>w'. retry (scripted outcome) w = Some (None, w') \<and> tick w' = tick w + 20
         \<and> count_list (trace w') Operation = count_list (trace w) Operation + 20
         \<and> filter is_detail (drop (length (trace w)) (trace w'))
             = [Info (LogExn (projl (outcome (tick w))))]"
    by (simp add: count_failures_Operation detail_failures_first)
qed

theorem retry_contract_witness:
  "(\<exists>w'. retry (scripted fails_twice) start = Some (Some 7, w') \<and> tick w' = 3
       \<and> count_list (trace w') Operation = 3)
   \<and> (\<exists>w'. retry (scripted always_fails) start = Some (None, w') \<and> tick w' = 20
       \<and> count_list (trace w') Operation = 20
       \<and> filter is_detail (trace w') = [Info (LogExn (BinanceAPIException (- 1021)))])"
  using retry_contract [of 2 fails_twice start "Some 7"] retry_contract [of 0 always_fails start None]
  by (simp add: fails_twice_def always_fails_def start_def)

text \<open>
  C9 as stated fails.  With two failing calls and a successful third, the whole trace
  of \<open>retry\<close> holds one sleep, before the first call: the second and the third call
  follow the log lines of the failure directly.
\<close>

theorem retry_single_delay_counterexample:
  "map_option (trace \<circ> snd) (retry (scripted fails_twice) start)
     = Some [Sleep 1, Operation, Info FailedBuySell, Info (LogExn RequestException),
             Operation, Info FailedBuySell, Operation]"
  using retry_succeeds [of 2 fails_twice start "Some 7"]
  by (simp add: fails_twice_def start_def numeral_2_eq_2)

text \<open>
  C9, amended.  \<open>retry\<close> sleeps for one second exactly once, before the first attempt;
  nothing it does after that is a sleep, however many attempts fail.
\<close>

theorem retry_sleeps_once:
  "\<exists>r w' rest. retry (scripted outcome) w = Some (r, w')
      \<and> trace w' = trace w @ Sleep 1 # rest \<and> (\<forall>d. Sleep d \<notin> set rest)"
proof (cases rule: retry_cases [of outcome "tick w"])
  case exhausted
  then show ?thesis
    using retry_exhausts [of outcome w] by (simp add: no_sleep_failures)
next
  case (returned k v)
  then show ?thesis
    using retry_succeeds [of k outcome w v] by (simp add: no_sleep_failures)
qed

text \<open>
  C8 as stated fails.  An operation that returns \<open>None\<close> on its first call and an
  operation that raises on all 20 calls give the caller of \<open>retry\<close> the same value.
\<close>

theorem retry_sentinel_counterexample:
  "map_option fst (retry (scripted returns_none) start) = Some None
   \<and> map_option fst (retry (scripted always_fails) start) = Some None"
  using retry_succeeds [of 0 returns_none start None] retry_exhausts [of always_fails start]
  by (simp add: returns_none_def always_fails_def)

text \<open>
  C8, amended.  The value returned on exhaustion is \<open>None\<close>: \<open>retry\<close> returns \<open>None\<close>
  exactly when all 20 calls raised or the first call that did not raise returned
  \<open>None\<close> itself.  So exhaustion is told apart from every result of the operation other
  than \<open>None\<close>, and from all of them when the operation never returns \<open>None\<close>.
\<close>

theorem retry_none_iff:
  "(map_option fst (retry (scripted outcome) w) = Some None
      \<longleftrightarrow> (\<forall>i<20. isl (outcome (tick w + i)))
        \<or> (\<exists>k<20. (\<forall>i<k. isl (outcome (tick w + i))) \<and> outcome (tick w + k) = Inr None))
   \<and> ((\<forall>i. outcome i \<noteq> Inr None) \<longrightarrow>
        (map_option fst (retry (scripted outcome) w) = Some None
           \<longleftrightarrow> (\<forall>i<20. isl (outcome (tick w + i)))))"
proof -
  have main: "map_option fst (retry (scripted outcome) w) = Some None
      \<longleftrightarrow> (\<forall>i<20. isl (outcome (tick w + i)))
        \<or> (\<exists>k<20. (\<forall>i<k. isl (outcome (tick w + i))) \<and> outcome (tick w + k) = Inr None)"
  proof (cases rule: retry_cases [of outcome "tick w"])
    case exhausted
    then show ?thesis using retry_exhausts [of outcome w] by simp
  next
    case (returned k v)
    have r: "map_option fst (retry (scripted outcome) w) = Some v"
      using retry_succeeds [of k outcome w v] returned by simp
    have not_all: "\<not> (\<forall>i<20. isl (outcome (tick w + i)))"
      using returned(1,3) by (metis sum.disc(2))
    show ?thesis
    proof
      assume "map_option fst (retry (scripted outcome) w) = Some None"
      then have "v = None" using r by simp
      then show "(\<forall>i<20. isl (outcome (tick w + i)))
        \<or> (\<exists>k<20. (\<forall>i<k. isl (outcome (tick w + i))) \<and> outcome (tick w + k) = Inr None)"
        using returned by blast
    next
      assume "(\<forall>i<20. isl (outcome (tick w + i)))
        \<or> (\<exists>k<20. (\<forall>i<k. isl (outcome (tick w + i))) \<and> outcome (tick w + k) = Inr None)"
      then obtain k' where k': "k' < 20" "\<forall>i<k'. isl (outcome (tick w + i))"
          "outcome (tick w + k') = Inr None"
        using not_all by blast
      have "k' = k"
      proof (rule ccontr)
        assume "k' \<noteq> k"
        then consider "k' < k" | "k < k'" by linarith
        then show False
        proof cases
          case 1
          then show ?thesis using returned(2) k'(3) by (metis sum.disc(2))
        next
          case 2
          then show ?thesis using k'(2) returned(3) by (metis sum.disc(2))
        qed
      qed
      then show "map_option fst (retry (scripted outcome) w) = Some None"
        using r k'(3) returned(3) by simp
    qed
  qed
  show ?thesis
  proof (intro conjI impI)
    show "map_option fst (retry (scripted outcome) w) = Some None
      \<longleftrightarrow> (\<forall>i<20. isl (outcome (tick w + i)))
        \<or> (\<exists>k<20. (\<forall>i<k. isl (outcome (tick w + i))) \<and> outcome (tick w + k) = Inr None)"
      by (rule main)
  next
    assume "\<forall>i. outcome i \<noteq> Inr None"
    then show "map_option fst (retry (scripted outcome) w) = Some None
           \<longleftrightarrow> (\<forall>i<20. isl (outcome (tick w + i)))"
      using main by blast
  qed
qed

theorem retry_none_iff_witness:
  "map_option fst (retry (scripted always_fails) start) = Some None
   \<and> map_option fst (retry (scripted fails_twice) start) \<noteq> Some None"
  using retry_none_iff [of always_fails start] retry_none_iff [of fails_twice start]
  by (auto simp: always_fails_def fails_twice_def start_def)

section \<open>Properties of the fill tracker\<close>

lemma tick_simps [simp]:
  "tick (emit ev w) = tick w" "tick (sleep d w) = tick w" "tick (info m w) = tick w"
  "tick (request ev w) = Suc (tick w)" "tick (handle d e w) = tick w"
  by (simp_all add: emit_def sleep_def info_def request_def handle_def)

lemma trace_simps [simp]:
  "trace (emit ev w) = trace w @ [ev]" "trace (sleep d w) = trace w @ [Sleep d]"
  "trace (info m w) = trace w @ [Info m]" "trace (request ev w) = trace w @ [ev]"
  by (simp_all add: emit_def sleep_def info_def request_def)

lemma count_handle [simp]:
  "count_list (trace (handle d e w)) (GetOrder s oid) = count_list (trace w) (GetOrder s oid)"
  by (simp add: handle_def)

lemma poll_first_filled:
  "status stat0 \<noteq> ''FILLED'' \<Longrightarrow> \<forall>i<k. \<not> filled_at C s oid (tick w + i) \<Longrightarrow>
   get_order C (tick w + k) s oid = Inr stat \<Longrightarrow> status stat = ''FILLED'' \<Longrightarrow>
   \<exists>w'. poll C s oid stat0 w = Some (stat, w') \<and> tick w' = tick w + (k + 1)
     \<and> count_list (trace w') (GetOrder s oid) = count_list (trace w) (GetOrder s oid) + (k + 1)"
proof (induction k arbitrary: stat0 w)
  case 0
  then show ?case
    by (subst poll.simps, simp, subst poll.simps, simp)
next
  case (Suc k)
  have nf: "\<not> filled_at C s oid (tick w)" using Suc.prems(2) by force
  show ?case
  proof (cases "get_order C (tick w) s oid")
    case (Inl e)
    let ?w = "handle 2 e (request (GetOrder s oid) w)"
    have "\<exists>w'. poll C s oid stat0 ?w = Some (stat, w') \<and> tick w' = tick ?w + (k + 1)
       \<and> count_list (trace w') (GetOrder s oid) = count_list (trace ?w) (GetOrder s oid) + (k + 1)"
      using Suc.prems by (intro Suc.IH) auto
    moreover have "poll C s oid stat0 w = poll C s oid stat0 ?w"
      using Suc.prems(1) Inl by (subst poll.simps) simp
    ultimately show ?thesis by auto
  next
    case (Inr stat1)
    let ?w = "sleep 1 (request (GetOrder s oid) w)"
    have s1: "status stat1 \<noteq> ''FILLED''" using nf Inr by (simp add: filled_at_def)
    have "\<exists>w'. poll C s oid stat1 ?w = Some (stat, w') \<and> tick w' = tick ?w + (k + 1)
       \<and> count_list (trace w') (GetOrder s oid) = count_list (trace ?w) (GetOrder s oid) + (k + 1)"
      using Suc.prems s1 by (intro Suc.IH) auto
    moreover have "poll C s oid stat0 w = poll C s oid stat1 ?w"
      using Suc.prems(1) Inr by (subst poll.simps) simp
    ultimately show ?thesis by auto
  qed
qed

lemma wait_for_order_returns:
  "\<forall>i<k. \<not> filled_at C (a @ c) oid (tick w + i) \<Longrightarrow>
   get_order C (tick w + k) (a @ c) oid = Inr stat \<Longrightarrow> status stat = ''FILLED'' \<Longrightarrow>
   \<exists>w'. wait_for_order C a c oid w = Some (stat, w') \<and> tick w' = tick w + (k + 1)
     \<and> count_list (trace w') (GetOrder (a @ c) oid) = count_list (trace w) (GetOrder (a @ c) oid) + (k + 1)"
proof (induction k arbitrary: w)
  case 0
  then show ?case
    unfolding wait_for_order_def
    by (subst first_fetch.simps, simp, subst poll.simps, simp)
next
  case (Suc k)
  have nf: "\<not> filled_at C (a @ c) oid (tick w)" using Suc.prems(1) by force
  show ?case
  proof (cases "get_order C (tick w) (a @ c) oid")
    case (Inl e)
    let ?w = "handle 10 e (request (GetOrder (a @ c) oid) (sleep 3 w))"
    have "\<exists>w'. wait_for_order C a c oid ?w = Some (stat, w') \<and> tick w' = tick ?w + (k + 1)
       \<and> count_list (trace w') (GetOrder (a @ c) oid) = count_list (trace ?w) (GetOrder (a @ c) oid) + (k + 1)"
      using Suc.prems by (intro Suc.IH) auto
    moreover have "wait_for_order C a c oid w = wait_for_order C a c oid ?w"
      unfolding wait_for_order_def using Inl by (subst first_fetch.simps) simp
    ultimately show ?thesis by auto
  next
    case (Inr stat1)
    let ?w = "info (LogStat stat1) (request (GetOrder (a @ c) oid) (sleep 3 w))"
    have s1: "status stat1 \<noteq> ''FILLED''" using nf Inr by (simp add: filled_at_def)
    have "\<exists>w'. poll C (a @ c) oid stat1 ?w = Some (stat, w') \<and> tick w' = tick ?w + (k + 1)
       \<and> count_list (trace w') (GetOrder (a @ c) oid) = count_list (trace ?w) (GetOrder (a @ c) oid) + (k + 1)"
      using Suc.prems s1 by (intro poll_first_filled) auto
    moreover have "wait_for_order C a c oid w = poll C (a @ c) oid stat1 ?w"
      unfolding wait_for_order_def using Inr by (subst first_fetch.simps) simp
    ultimately show ?thesis by auto
  qed
qed

lemma poll_returns_filled:
  assumes "poll C s oid stat0 w = Some y"
  shows "status stat0 = ''FILLED'' \<or> (\<exists>i\<ge>tick w. filled_at C s oid i)"
  using assms
proof (induction C s oid stat0 w y rule: poll.raw_induct [rotated 1, consumes 1])
  case (1 f C s oid stat0 w y)
  show ?case
  proof (cases "status stat0 = ''FILLED''")
    case True
    then show ?thesis by simp
  next
    case False
    show ?thesis
    proof (cases "get_order C (tick w) s oid")
      case (Inl e)
      then have "f C s oid stat0 (handle 2 e (request (GetOrder s oid) w)) = Some y"
        using 1(2) False by simp
      from 1(1) [OF this] False obtain i where "Suc (tick w) \<le> i" "filled_at C s oid i"
        by auto
      then show ?thesis by (intro disjI2 exI [of _ i]) simp
    next
      case (Inr stat1)
      then have "f C s oid stat1 (sleep 1 (request (GetOrder s oid) w)) = Some y"
        using 1(2) False by simp
      from 1(1) [OF this] consider "status stat1 = ''FILLED''"
        | i where "Suc (tick w) \<le> i" "filled_at C s oid i"
        by auto
      then show ?thesis
      proof cases
        case 1
        then have "filled_at C s oid (tick w)" using Inr by (simp add: filled_at_def)
        then show ?thesis by auto
      next
        case 2
        then show ?thesis by (intro disjI2 exI [of _ i]) simp
      qed
    qed
  qed
qed

lemma first_fetch_returns:
  assumes "first_fetch C s oid w = Some y"
  shows "tick w < tick (snd y) \<and> get_order C (tick (snd y) - 1) s oid = Inr (fst y)"
  using assms
proof (induction C s oid w y rule: first_fetch.raw_induct [rotated 1, consumes 1])
  case (1 f C s oid w y)
  show ?case
  proof (cases "get_order C (tick w) s oid")
    case (Inl e)
    then have "f C s oid (handle 10 e (request (GetOrder s oid) (sleep 3 w))) = Some y"
      using 1(2) by simp
    from 1(1) [OF this] show ?thesis by simp
  next
    case (Inr stat)
    then show ?thesis using 1(2) by auto
  qed
qed

lemma wait_for_order_only_filled:
  assumes "wait_for_order C a c oid w = Some y"
  shows "\<exists>i\<ge>tick w. filled_at C (a @ c) oid i"
proof -
  from assms obtain stat w1 where f: "first_fetch C (a @ c) oid w = Some (stat, w1)"
    and p: "poll C (a @ c) oid stat (info (LogStat stat) w1) = Some y"
    by (auto simp: wait_for_order_def split: option.splits)
  from first_fetch_returns [OF f]
  have t: "tick w < tick w1" and g: "get_order C (tick w1 - 1) (a @ c) oid = Inr stat" by simp_all
  from poll_returns_filled [OF p]
  consider "status stat = ''FILLED''" | i where "tick w1 \<le> i" "filled_at C (a @ c) oid i"
    by auto
  then show ?thesis
  proof cases
    case 1
    then have "filled_at C (a @ c) oid (tick w1 - 1)" using g by (simp add: filled_at_def)
    moreover have "tick w \<le> tick w1 - 1" using t by simp
    ultimately show ?thesis by blast
  next
    case 2
    then show ?thesis using t by (intro exI [of _ i]) simp
  qed
qed

lemma wait_for_order_result:
  assumes ret: "wait_for_order C a c oid w = Some (stat', w')"
  shows "status stat' = ''FILLED'' \<and> tick w < tick w'
        \<and> get_order C (tick w' - 1) (a @ c) oid = Inr stat'
        \<and> (\<forall>i. tick w \<le> i \<and> i < tick w' - 1 \<longrightarrow> \<not> filled_at C (a @ c) oid i)"
proof -
  from wait_for_order_only_filled [OF ret] obtain j where
    j: "tick w \<le> j" "filled_at C (a @ c) oid j" by auto
  define k where "k = (LEAST i. filled_at C (a @ c) oid (tick w + i))"
  have ex: "filled_at C (a @ c) oid (tick w + (j - tick w))" using j by simp
  have fk: "filled_at C (a @ c) oid (tick w + k)"
    unfolding k_def using ex by (rule LeastI)
  have before: "\<forall>i<k. \<not> filled_at C (a @ c) oid (tick w + i)"
    unfolding k_def using not_less_Least by blast
  from fk obtain st where st: "get_order C (tick w + k) (a @ c) oid = Inr st"
      "status st = ''FILLED''"
    by (auto simp: filled_at_def split: sum.splits)
  from wait_for_order_returns [OF before st]
  obtain w'' where w'': "wait_for_order C a c oid w = Some (st, w'')"
      "tick w'' = tick w + (k + 1)" by auto
  with ret have eq: "stat' = st" "w' = w''" by simp_all
  show ?thesis
  proof -
    have "\<not> filled_at C (a @ c) oid i" if i: "tick w \<le> i \<and> i < tick w' - 1" for i
    proof -
      have "i - tick w < k" using i eq w'' by auto
      with before have "\<not> filled_at C (a @ c) oid (tick w + (i - tick w))" by blast
      then show ?thesis using i by simp
    qed
    moreover have "status stat' = ''FILLED''" using eq st by simp
    moreover have "tick w < tick w'" using eq w'' by simp
    moreover have "get_order C (tick w' - 1) (a @ c) oid = Inr stat'" using eq w'' st by simp
    ultimately show ?thesis by blast
  qed
qed

lemma wait_for_order_blocks:
  assumes never: "\<forall>i. \<not> filled_at C (a @ c) oid (tick w + i)"
  shows "wait_for_order C a c oid w = None"
proof (rule ccontr)
  assume "wait_for_order C a c oid w \<noteq> None"
  then obtain y where "wait_for_order C a c oid w = Some y"
    by auto
  from wait_for_order_only_filled [OF this] obtain i where
    "tick w \<le> i" "filled_at C (a @ c) oid i" by auto
  then have "filled_at C (a @ c) oid (tick w + (i - tick w))" by simp
  then show False using never by blast
qed

text \<open>
  C4.  \<open>wait_for_order\<close> against any script of answers to the status fetch.  If the
  fetch number \<open>k + 1\<close> is the first that answers with the status \<open>FILLED\<close> (every earlier
  one raised or answered with another status), \<open>wait_for_order\<close> returns the record of
  that fetch after exactly \<open>k + 1\<close> fetches.  If no fetch ever answers \<open>FILLED\<close> it never
  returns.  Whenever it returns, the record is the answer of its last fetch, its
  status is \<open>FILLED\<close>, and no earlier fetch was answered with \<open>FILLED\<close>.
\<close>

theorem wait_for_order_first_filled:
  "((\<forall>i<k. \<not> filled_at C (a @ c) oid (tick w + i))
      \<and> get_order C (tick w + k) (a @ c) oid = Inr stat \<and> status stat = ''FILLED'' \<longrightarrow>
      (\<exists>w'. wait_for_order C a c oid w = Some (stat, w') \<and> tick w' = tick w + (k + 1)
         \<and> count_list (trace w') (GetOrder (a @ c) oid)
             = count_list (trace w) (GetOrder (a @ c) oid) + (k + 1)))
   \<and> ((\<forall>i. \<not> filled_at C (a @ c) oid (tick w + i)) \<longrightarrow> wait_for_order C a c oid w = None)
   \<and> (wait_for_order C a c oid w = Some (stat', w') \<longrightarrow>
        status stat' = ''FILLED'' \<and> tick w < tick w'
        \<and> get_order C (tick w' - 1) (a @ c) oid = Inr stat'
        \<and> (\<forall>i. tick w \<le> i \<and> i < tick w' - 1 \<longrightarrow> \<not> filled_at C (a @ c) oid i))"
proof -
  have first: "\<exists>w'. wait_for_order C a c oid w = Some (stat, w') \<and> tick w' = tick w + (k + 1)
         \<and> count_list (trace w') (GetOrder (a @ c) oid)
             = count_list (trace w) (GetOrder (a @ c) oid) + (k + 1)"
    if "(\<forall>i<k. \<not> filled_at C (a @ c) oid (tick w + i))
      \<and> get_order C (tick w + k) (a @ c) oid = Inr stat \<and> status stat = ''FILLED''"
    using that by (intro wait_for_order_returns) auto
  have blocks: "wait_for_order C a c oid w = None"
    if "\<forall>i. \<not> filled_at C (a @ c) oid (tick w + i)"
    using that by (rule wait_for_order_blocks)
  have only: "status stat' = ''FILLED'' \<and> tick w < tick w'
        \<and> get_order C (tick w' - 1) (a @ c) oid = Inr stat'
        \<and> (\<forall>i. tick w \<le> i \<and> i < tick w' - 1 \<longrightarrow> \<not> filled_at C (a @ c) oid i)"
    if "wait_for_order C a c oid w = Some (stat', w')"
    using that by (rule wait_for_order_result)
  from first blocks only show ?thesis by blast
qed

theorem wait_for_order_first_filled_witness:
  "(\<exists>w'. wait_for_order (statuses_client [''NEW'', ''NEW'', ''PARTIALLY_FILLED'', ''FILLED''])
            ''ALT'' ''BTC'' 1 start
          = Some (\<lparr>status = ''FILLED'', cummulativeQuoteQty = ''0.1234''\<rparr>, w')
        \<and> tick w' = 4 \<and> count_list (trace w') (GetOrder ''ALTBTC'' 1) = 4)
   \<and> wait_for_order (statuses_client [''NEW'', ''CANCELED'']) ''ALT'' ''BTC'' 1 start = None"
proof -
  let ?C = "statuses_client [''NEW'', ''NEW'', ''PARTIALLY_FILLED'', ''FILLED'']"
  let ?D = "statuses_client [''NEW'', ''CANCELED'']"
  have 1: "\<forall>i<3. \<not> filled_at ?C (''ALT'' @ ''BTC'') 1 (tick start + i)"
    by (auto simp: filled_at_def statuses_client_def start_def less_Suc_eq numeral_3_eq_3)
  have 2: "get_order ?C (tick start + 3) (''ALT'' @ ''BTC'') 1
      = Inr \<lparr>status = ''FILLED'', cummulativeQuoteQty = ''0.1234''\<rparr>"
    by (simp add: statuses_client_def start_def)
  have 3: "\<forall>i. \<not> filled_at ?D (''ALT'' @ ''BTC'') 1 (tick start + i)"
    by (auto simp: filled_at_def statuses_client_def start_def less_Suc_eq numeral_2_eq_2)
  show ?thesis
    using wait_for_order_first_filled [of 3 ?C "''ALT''" "''BTC''" 1 start
        "\<lparr>status = ''FILLED'', cummulativeQuoteQty = ''0.1234''\<rparr>"] 1 2
      wait_for_order_first_filled [of 0 ?D "''ALT''" "''BTC''" 1 start] 3
    by (simp add: start_def)
qed

section \<open>Properties of the sell path\<close>

lemma get_currency_balance_eq:
  "get_currency_balance C cur w = (balance_at C cur (tick w), request GetAccount w)"
  by (simp add: get_currency_balance_def balance_at_def split: sum.splits)

lemma confirm_loop_exits:
  "b \<le> x0 \<Longrightarrow> \<forall>i<k. \<exists>x. balance_at C alt (tick w + i) = Inr (Some x) \<and> b \<le> x \<Longrightarrow>
   balance_at C alt (tick w + k) = Inr (Some y) \<Longrightarrow> y < b \<Longrightarrow>
   \<exists>w'. confirm_loop C alt (Some b) (Some x0) w = Some (Inr (Some y), w')
     \<and> tick w' = tick w + (k + 1)
     \<and> count_list (trace w') GetAccount = count_list (trace w) GetAccount + (k + 1)"
proof (induction k arbitrary: x0 w)
  case 0
  then show ?case
    by (subst confirm_loop.simps, simp add: py_ge_def get_currency_balance_eq,
        subst confirm_loop.simps, simp add: py_ge_def)
next
  case (Suc k)
  from Suc.prems(2) obtain x1 where x1: "balance_at C alt (tick w) = Inr (Some x1)" "b \<le> x1"
    by force
  let ?w = "request GetAccount w"
  have "\<exists>w'. confirm_loop C alt (Some b) (Some x1) ?w = Some (Inr (Some y), w')
     \<and> tick w' = tick ?w + (k + 1)
     \<and> count_list (trace w') GetAccount = count_list (trace ?w) GetAccount + (k + 1)"
    using Suc.prems x1 by (intro Suc.IH) auto
  moreover have "confirm_loop C alt (Some b) (Some x0) w = confirm_loop C alt (Some b) (Some x1) ?w"
    using Suc.prems(1) x1 by (subst confirm_loop.simps) (simp add: py_ge_def get_currency_balance_eq)
  ultimately show ?case by auto
qed

lemma confirm_balance_exits:
  assumes "\<forall>i<k. \<exists>x. balance_at C alt (tick w + i) = Inr (Some x) \<and> b \<le> x"
    "balance_at C alt (tick w + k) = Inr (Some y)" "y < b"
  shows "\<exists>w'. confirm_balance C alt (Some b) w = Some (Inr (Some y), w')
     \<and> tick w' = tick w + (k + 1)
     \<and> count_list (trace w') GetAccount = count_list (trace w) GetAccount + (k + 1)"
proof (cases k)
  case 0
  then show ?thesis using assms
    by (simp add: confirm_balance_def get_currency_balance_eq)
       (subst confirm_loop.simps, simp add: py_ge_def)
next
  case (Suc j)
  from assms(1) Suc obtain x0 where x0: "balance_at C alt (tick w) = Inr (Some x0)" "b \<le> x0"
    by force
  let ?w = "request GetAccount w"
  have "\<exists>w'. confirm_loop C alt (Some b) (Some x0) ?w = Some (Inr (Some y), w')
     \<and> tick w' = tick ?w + (j + 1)
     \<and> count_list (trace w') GetAccount = count_list (trace ?w) GetAccount + (j + 1)"
    using assms Suc x0 by (intro confirm_loop_exits) auto
  then show ?thesis using Suc x0
    by (auto simp: confirm_balance_def get_currency_balance_eq)
qed

lemma confirm_loop_result:
  assumes "confirm_loop C alt ab nb w = Some y"
  shows "tick w \<le> tick (snd y) \<and>
     (case fst y of
        Inr v \<Rightarrow> py_ge v ab = Inr False
          \<and> (snd y = w \<and> v = nb \<or> tick w < tick (snd y) \<and> balance_at C alt (tick (snd y) - 1) = Inr v)
      | Inl e \<Rightarrow> snd y = w \<and> py_ge nb ab = Inl e
          \<or> tick w < tick (snd y)
            \<and> (balance_at C alt (tick (snd y) - 1) = Inl e
               \<or> (\<exists>v. balance_at C alt (tick (snd y) - 1) = Inr v \<and> py_ge v ab = Inl e)))"
  using assms
proof (induction C alt ab nb w y rule: confirm_loop.raw_induct [rotated 1, consumes 1])
  case (1 f C alt ab nb w y)
  show ?case
  proof (cases "py_ge nb ab")
    case (Inl e)
    then show ?thesis using 1(2) by auto
  next
    case (Inr again)
    show ?thesis
    proof (cases again)
      case False
      then show ?thesis using 1(2) Inr by auto
    next
      case True
      show ?thesis
      proof (cases "balance_at C alt (tick w)")
        case (Inl e)
        then show ?thesis using 1(2) Inr True by (auto simp: get_currency_balance_eq)
      next
        case r: (Inr nb')
        then have "f C alt ab nb' (request GetAccount w) = Some y"
          using 1(2) Inr True by (simp add: get_currency_balance_eq)
        from 1(1) [OF this] r show ?thesis
          by (auto split: sum.splits)
      qed
    qed
  qed
qed

lemma confirm_balance_result:
  assumes "confirm_balance C alt ab w = Some (r, w')"
  shows "tick w < tick w' \<and>
     (case r of
        Inr v \<Rightarrow> py_ge v ab = Inr False \<and> balance_at C alt (tick w' - 1) = Inr v
      | Inl e \<Rightarrow> balance_at C alt (tick w' - 1) = Inl e
               \<or> (\<exists>v. balance_at C alt (tick w' - 1) = Inr v \<and> py_ge v ab = Inl e))"
proof (cases "balance_at C alt (tick w)")
  case (Inl e)
  have "r = Inl e" "w' = request GetAccount w"
    using assms Inl by (simp_all add: confirm_balance_def get_currency_balance_eq)
  then show ?thesis using Inl by simp
next
  case (Inr nb)
  then have "confirm_loop C alt ab nb (request GetAccount w) = Some (r, w')"
    using assms by (simp add: confirm_balance_def get_currency_balance_eq)
  from confirm_loop_result [OF this] Inr show ?thesis
    by (auto split: sum.splits)
qed

lemma confirm_balance_blocks:
  assumes "\<forall>i. \<exists>x. balance_at C alt (tick w + i) = Inr (Some x) \<and> b \<le> x"
  shows "confirm_balance C alt (Some b) w = None"
proof (rule ccontr)
  assume "confirm_balance C alt (Some b) w \<noteq> None"
  then obtain r w' where ret: "confirm_balance C alt (Some b) w = Some (r, w')" by auto
  from confirm_balance_result [OF ret] have t: "tick w < tick w'" by simp
  from assms obtain x where x: "balance_at C alt (tick w + (tick w' - 1 - tick w)) = Inr (Some x)"
      "b \<le> x" by blast
  then have "balance_at C alt (tick w' - 1) = Inr (Some x)" using t by simp
  with confirm_balance_result [OF ret] x(2) show False
    by (auto simp: py_ge_def split: sum.splits)
qed


lemma get_alt_tick_tick: "tick (snd (get_alt_tick C a c w)) = Suc (tick w)"
  by (simp add: get_alt_tick_def get_symbol_filter_def split: sum.splits option.splits prod.splits)

lemma sell_quantity_tick: "tick (snd (sell_quantity rnd C a c ab w)) = Suc (tick w)"
  using get_alt_tick_tick [of C a c w]
  by (auto simp: sell_quantity_def split: sum.splits prod.splits)

lemma sell_loop_tick:
  assumes "sell_loop C s q w = Some y"
  shows "tick w < tick (snd y)"
  using assms
proof (induction C s q w y rule: sell_loop.raw_induct [rotated 1, consumes 1])
  case (1 f C s q w y)
  show ?case
  proof (cases "order_market_sell C (tick w) s q")
    case (Inl e)
    then show ?thesis using 1(2) by auto
  next
    case (Inr r)
    show ?thesis
    proof (cases r)
      case None
      then have "f C s q (request (OrderMarketSell s q) w) = Some y" using 1(2) Inr by simp
      from 1(1) [OF this] show ?thesis by simp
    next
      case (Some ord)
      then show ?thesis using 1(2) Inr by auto
    qed
  qed
qed

lemma py_ge_False: "py_ge x y = Inr False \<Longrightarrow> \<exists>a b. x = Some a \<and> y = Some b \<and> a < b"
  by (auto simp: py_ge_def split: option.splits)

lemma priv_sell_alt_completes:
  assumes "priv_sell_alt rnd C alt crypto w = Some (Inr r, w')"
  shows "\<exists>order b y j. r = Some order \<and> balance_at C alt (tick w) = Inr (Some b)
     \<and> tick w < j \<and> j < tick w' - 1 \<and> filled_at C (alt @ crypto) (orderId order) j
     \<and> balance_at C alt (tick w' - 1) = Inr (Some y) \<and> y < b"
proof -
  let ?w0 = "emit (TradeLogNew alt crypto True) w"
  from assms obtain ab w1 cb w2 q w3 ord w4 stat w5 nb w6 where
    s1: "get_currency_balance C alt ?w0 = (Inr ab, w1)" and
    s2: "get_currency_balance C crypto w1 = (Inr cb, w2)" and
    s3: "sell_quantity rnd C alt crypto ab w2 = (Inr q, w3)" and
    s4: "sell_loop C (alt @ crypto) q (info (BalanceIs ab) (info (Selling q alt) w3))
           = Some (Inr ord, w4)" and
    s5: "wait_for_order C alt crypto (orderId ord)
           (sleep 5 (info WaitingForBinance (emit (SetOrdered ab cb q)
              (info (LogOrder (Some ord)) (info OrderText w4))))) = Some (stat, w5)" and
    s6: "confirm_balance C alt ab w5 = Some (Inr nb, w6)" and
    r: "r = Some ord" and w': "w' = emit (SetComplete (cummulativeQuoteQty stat)) (info (Sold alt) w6)"
    unfolding priv_sell_alt_def
    by (auto split: prod.splits sum.splits option.splits)
  from s1 have b0: "balance_at C alt (tick w) = Inr ab" and t1: "tick w1 = Suc (tick w)"
    by (auto simp: get_currency_balance_eq)
  from s2 have t2: "tick w2 = Suc (tick w1)" by (auto simp: get_currency_balance_eq)
  from sell_quantity_tick [of rnd C alt crypto ab w2] s3 have t3: "tick w3 = Suc (tick w2)" by simp
  from sell_loop_tick [OF s4] have t4: "tick w3 < tick w4" by simp
  from wait_for_order_result [OF s5]
  have filled: "status stat = ''FILLED''" and t5: "tick w4 < tick w5"
    and last: "get_order C (tick w5 - 1) (alt @ crypto) (orderId ord) = Inr stat"
    by simp_all
  from confirm_balance_result [OF s6]
  have t6: "tick w5 < tick w6" and ge: "py_ge nb ab = Inr False"
    and fetched: "balance_at C alt (tick w6 - 1) = Inr nb"
    by simp_all
  from py_ge_False [OF ge] obtain y b where yb: "nb = Some y" "ab = Some b" "y < b" by blast
  have "filled_at C (alt @ crypto) (orderId ord) (tick w5 - 1)"
    using last filled by (simp add: filled_at_def)
  moreover have "tick w < tick w5 - 1" using t1 t2 t3 t4 t5 by simp
  moreover have "tick w5 - 1 < tick w' - 1" using t6 t5 w' by simp
  moreover have "balance_at C alt (tick w' - 1) = Inr (Some y)" using fetched yb w' by simp
  ultimately show ?thesis using r b0 yb by blast
qed

text \<open>
  C5.  The confirmation loop of the sell path, with the balance \<open>b\<close> recorded before the
  sell, against any script of balance fetches: it fetches again after every balance
  greater than or equal to \<open>b\<close> and exits exactly at the first balance strictly below
  \<open>b\<close>, after \<open>k + 1\<close> fetches when \<open>k\<close> balances came before that one; it never exits
  while no fetched balance is below \<open>b\<close>.  And whenever \<open>_sell_alt\<close> returns its order,
  the order was reported \<open>FILLED\<close> by an earlier fetch, and the last request of the run
  is a balance fetch whose alt balance is strictly below the alt balance fetched at
  the start.
\<close>

theorem sell_balance_confirmation:
  "((\<forall>i<k. \<exists>x. balance_at C alt (tick w + i) = Inr (Some x) \<and> b \<le> x)
      \<and> balance_at C alt (tick w + k) = Inr (Some y) \<and> y < b \<longrightarrow>
      (\<exists>w'. confirm_balance C alt (Some b) w = Some (Inr (Some y), w')
         \<and> tick w' = tick w + (k + 1)
         \<and> count_list (trace w') GetAccount = count_list (trace w) GetAccount + (k + 1)))
   \<and> ((\<forall>i. \<exists>x. balance_at C alt (tick w + i) = Inr (Some x) \<and> b \<le> x) \<longrightarrow>
        confirm_balance C alt (Some b) w = None)
   \<and> (priv_sell_alt rnd C alt crypto w0 = Some (Inr r, w1) \<longrightarrow>
        (\<exists>order b0 y0 j. r = Some order \<and> balance_at C alt (tick w0) = Inr (Some b0)
           \<and> tick w0 < j \<and> j < tick w1 - 1 \<and> filled_at C (alt @ crypto) (orderId order) j
           \<and> balance_at C alt (tick w1 - 1) = Inr (Some y0) \<and> y0 < b0))"
proof -
  have exits: "\<exists>w'. confirm_balance C alt (Some b) w = Some (Inr (Some y), w')
         \<and> tick w' = tick w + (k + 1)
         \<and> count_list (trace w') GetAccount = count_list (trace w) GetAccount + (k + 1)"
    if "(\<forall>i<k. \<exists>x. balance_at C alt (tick w + i) = Inr (Some x) \<and> b \<le> x)
      \<and> balance_at C alt (tick w + k) = Inr (Some y) \<and> y < b"
    using that by (intro confirm_balance_exits) auto
  have blocks: "confirm_balance C alt (Some b) w = None"
    if "\<forall>i. \<exists>x. balance_at C alt (tick w + i) = Inr (Some x) \<and> b \<le> x"
    using that by (rule confirm_balance_blocks)
  have path: "\<exists>order b0 y0 j. r = Some order \<and> balance_at C alt (tick w0) = Inr (Some b0)
           \<and> tick w0 < j \<and> j < tick w1 - 1 \<and> filled_at C (alt @ crypto) (orderId order) j
           \<and> balance_at C alt (tick w1 - 1) = Inr (Some y0) \<and> y0 < b0"
    if "priv_sell_alt rnd C alt crypto w0 = Some (Inr r, w1)"
    using that by (rule priv_sell_alt_completes)
  from exits blocks path show ?thesis by blast
qed



lemma sell_client_run:
  "priv_sell_alt exact sell_client ''ALT'' ''BTC'' start
     = Some (Inr (Some \<lparr>orderId = 1\<rparr>),
        \<lparr>tick = 9,
         trace =
           [TradeLogNew ''ALT'' ''BTC'' True, GetAccount, GetAccount,
            GetSymbolInfo ''ALTBTC'', Info (Selling (Float 12.345) ''ALT''),
            Info (BalanceIs (Some 12.3456)),
            OrderMarketSell ''ALTBTC'' (Float 12.345), Info OrderText,
            Info (LogOrder (Some \<lparr>orderId = 1\<rparr>)),
            SetOrdered (Some 12.3456) (Some 1) (Float 12.345),
            Info WaitingForBinance, Sleep 5, Sleep 3, GetOrder ''ALTBTC'' 1,
            Info (LogStat \<lparr>status = ''NEW'', cummulativeQuoteQty = ''0.1234''\<rparr>),
            GetOrder ''ALTBTC'' 1, Sleep 1, GetAccount, GetAccount, GetAccount,
            Info (Sold ''ALT''), SetComplete ''0.1234'']\<rparr>)"
proof -
  have q: "sell_quantity_arith exact (Some 12.3456) 3 = Inr (Float 12.345)"
    by (simp add: sell_quantity_arith_def ten_pow_float_def floor_at_tick_def py_floor_def
        py_truediv_def int_to_float_exact to_float_exact)
  then have q: "sell_quantity_arith exact (Some (7716 / 625)) 3 = Inr (Float 12.345)"
    by simp
  show ?thesis
    by (simp add: priv_sell_alt_def sell_client_def start_def get_currency_balance_def
        sell_quantity_def get_alt_tick_def get_symbol_filter_def getitem_def
        tick_of_step_size_def str_find_def q
        wait_for_order_def confirm_balance_def py_ge_def
        emit_def info_def sleep_def request_def
        sell_loop.simps first_fetch.simps poll.simps confirm_loop.simps)
qed

theorem sell_balance_confirmation_witness:
  "(\<exists>w'. confirm_balance sell_client ''ALT'' (Some 12.3456) \<lparr>tick = 6, trace = []\<rparr>
            = Some (Inr (Some 0.0006), w')
        \<and> tick w' = 9 \<and> count_list (trace w') GetAccount = 3)
   \<and> confirm_balance sell_client ''BTC'' (Some 1) start = None
   \<and> (\<exists>b0 y0. balance_at sell_client ''ALT'' 0 = Inr (Some b0)
        \<and> balance_at sell_client ''ALT'' 8 = Inr (Some y0) \<and> y0 < b0)"
proof -
  let ?w = "\<lparr>tick = 6, trace = []\<rparr>"
  have "\<forall>i<2. balance_at sell_client ''ALT'' (tick ?w + i) = Inr (Some 12.3456)"
    by (simp add: balance_at_def sell_client_def)
  then have 1: "\<forall>i<2. \<exists>x. balance_at sell_client ''ALT'' (tick ?w + i) = Inr (Some x) \<and> 12.3456 \<le> x"
    by (meson order_refl)
  have 2: "balance_at sell_client ''ALT'' (tick ?w + 2) = Inr (Some 0.0006)"
    by (simp add: balance_at_def sell_client_def)
  have "\<forall>i. balance_at sell_client ''BTC'' (tick start + i) = Inr (Some 1)"
    by (simp add: balance_at_def sell_client_def)
  then have 3: "\<forall>i. \<exists>x. balance_at sell_client ''BTC'' (tick start + i) = Inr (Some x) \<and> 1 \<le> x"
    by (meson order_refl)
  have a: "\<exists>w'. confirm_balance sell_client ''ALT'' (Some 12.3456) ?w = Some (Inr (Some 0.0006), w')
        \<and> tick w' = 9 \<and> count_list (trace w') GetAccount = 3"
    using sell_balance_confirmation [of 2 sell_client "''ALT''" ?w "12.3456" "0.0006"] 1 2 by simp
  have b: "confirm_balance sell_client ''BTC'' (Some 1) start = None"
    using sell_balance_confirmation [of 0 sell_client "''BTC''" start 1] 3 by blast
  have c: "\<exists>b0 y0. balance_at sell_client ''ALT'' 0 = Inr (Some b0)
        \<and> balance_at sell_client ''ALT'' 8 = Inr (Some y0) \<and> y0 < b0"
    using sell_balance_confirmation [THEN conjunct2, THEN conjunct2, THEN mp, OF sell_client_run]
    by (auto simp: start_def)
  from a b c show ?thesis by blast
qed

section \<open>Terminal failure\<close>

lemma retry_loop_none_iff:
  assumes "\<And>w w'. func w \<noteq> Some (Inr None, w')"
  shows "attempts + n = 20 \<Longrightarrow>
    retry_loop func attempts w = Some (None, w') \<longleftrightarrow> raising_runs func n attempts w = Some w'"
proof (induction n arbitrary: attempts w)
  case 0
  then show ?case by (subst retry_loop.simps) auto
next
  case (Suc n)
  then have a: "attempts < 20" by simp
  show ?case
  proof (cases "func w")
    case None
    then show ?thesis using a by (subst retry_loop.simps) simp
  next
    case (Some y)
    obtain r w1 where y: "y = (r, w1)" by (cases y)
    show ?thesis
    proof (cases r)
      case (Inr v)
      with Some y assms [of w w1] have "v \<noteq> None" by auto
      then show ?thesis using a Some y Inr by (subst retry_loop.simps) auto
    next
      case (Inl e)
      let ?w = "if attempts = 0 then info (LogExn e) (info FailedBuySell w1)
                else info FailedBuySell w1"
      have "retry_loop func (attempts + 1) ?w = Some (None, w')
          \<longleftrightarrow> raising_runs func n (attempts + 1) ?w = Some w'"
        using Suc.prems by (intro Suc.IH) simp
      moreover have "retry_loop func attempts w = retry_loop func (attempts + 1) ?w"
        using a Some y Inl by (subst retry_loop.simps) simp
      moreover have "raising_runs func (Suc n) attempts w = raising_runs func n (attempts + 1) ?w"
        using Some y Inl by simp
      ultimately show ?thesis by simp
    qed
  qed
qed

lemma retry_none_iff_raising_runs:
  assumes "\<And>w w'. func w \<noteq> Some (Inr None, w')"
  shows "retry func w = Some (None, w') \<longleftrightarrow> raising_runs func 20 0 (sleep 1 w) = Some w'"
  unfolding retry_def using assms by (intro retry_loop_none_iff) simp_all

lemma priv_sell_alt_not_none: "priv_sell_alt rnd C a c w \<noteq> Some (Inr None, w')"
  by (auto simp: priv_sell_alt_def split: prod.splits sum.splits option.splits)

lemma priv_buy_alt_not_none: "priv_buy_alt rnd C a c w \<noteq> Some (Inr None, w')"
  by (auto simp: priv_buy_alt_def split: prod.splits sum.splits option.splits)

lemma retry_loop_raises_ticks:
  assumes "\<And>w. \<exists>e w'. func w = Some (Inl e, w') \<and> tick w' = tick w + m"
  shows "attempts + n = 20 \<Longrightarrow>
    \<exists>w'. retry_loop func attempts w = Some (None, w') \<and> tick w' = tick w + m * n"
proof (induction n arbitrary: attempts w)
  case 0
  then show ?case by (subst retry_loop.simps) simp
next
  case (Suc n)
  from assms obtain e w1 where f: "func w = Some (Inl e, w1)" "tick w1 = tick w + m" by blast
  let ?w = "if attempts = 0 then info (LogExn e) (info FailedBuySell w1) else info FailedBuySell w1"
  have t: "tick ?w = tick w + m" using f(2) by simp
  have "\<exists>w'. retry_loop func (attempts + 1) ?w = Some (None, w') \<and> tick w' = tick ?w + m * n"
    using Suc.prems by (intro Suc.IH) simp
  moreover have "attempts < 20" using Suc.prems by simp
  then have "retry_loop func attempts w = retry_loop func (attempts + 1) ?w"
    using f by (subst retry_loop.simps) simp
  ultimately show ?case using t by auto
qed

lemma retry_raises_ticks:
  assumes "\<And>w. \<exists>e w'. func w = Some (Inl e, w') \<and> tick w' = tick w + m"
  shows "\<exists>w'. retry func w = Some (None, w') \<and> tick w' = tick w + m * 20"
  using retry_loop_raises_ticks [of func m 0 20 "sleep 1 w"] assms
  by (simp add: retry_def)

lemma priv_sell_alt_no_account:
  assumes "\<forall>i. isl (get_account C i)"
  shows "\<exists>e w'. priv_sell_alt rnd C a c w = Some (Inl e, w') \<and> tick w' = tick w + 1"
proof -
  from assms obtain e where "get_account C (tick w) = Inl e"
    by (metis sum.collapse(1))
  then show ?thesis
    by (simp add: priv_sell_alt_def get_currency_balance_def)
qed

lemma priv_buy_alt_no_account:
  assumes "\<forall>i. isl (get_account C i)"
  shows "\<exists>e w'. priv_buy_alt rnd C a c w = Some (Inl e, w') \<and> tick w' = tick w + 1"
proof -
  from assms obtain e where "get_account C (tick w) = Inl e"
    by (metis sum.collapse(1))
  then show ?thesis
    by (simp add: priv_buy_alt_def get_currency_balance_def)
qed

lemma sell_alt_no_account:
  assumes "\<forall>i. isl (get_account C i)"
  shows "\<exists>w'. sell_alt rnd C a c w = Some (None, w') \<and> tick w' = tick w + 20"
  unfolding sell_alt_def
  using retry_raises_ticks [of "priv_sell_alt rnd C a c" 1 w] priv_sell_alt_no_account [OF assms]
  by simp

lemma buy_alt_no_account:
  assumes "\<forall>i. isl (get_account C i)"
  shows "\<exists>w'. buy_alt rnd C a c w = Some (None, w') \<and> tick w' = tick w + 20"
  unfolding buy_alt_def
  using retry_raises_ticks [of "priv_buy_alt rnd C a c" 1 w] priv_buy_alt_no_account [OF assms]
  by simp

lemma wait_for_order_no_answer:
  assumes "\<forall>i. isl (get_order C i (a @ c) oid)"
  shows "wait_for_order C a c oid w = None"
proof (rule wait_for_order_blocks)
  show "\<forall>i. \<not> filled_at C (a @ c) oid (tick w + i)"
  proof (intro allI)
    fix i
    from assms have "isl (get_order C (tick w + i) (a @ c) oid)" by blast
    then show "\<not> filled_at C (a @ c) oid (tick w + i)"
      by (cases "get_order C (tick w + i) (a @ c) oid") (simp_all add: filled_at_def)
  qed
qed

text \<open>
  C7 as stated fails.  Against an exchange on which every request raises, \<open>sell_alt\<close>
  returns, and what it returns is \<open>None\<close>.
\<close>

theorem sell_alt_sentinel_counterexample:
  "map_option fst (sell_alt exact down_client ''ALT'' ''BTC'' start) = Some None"
proof -
  have "\<forall>i. isl (get_account down_client i)" by (simp add: down_client_def)
  from sell_alt_no_account [OF this, of exact "''ALT''" "''BTC''" start]
  show ?thesis by auto
qed

text \<open>
  C7, amended.  Terminal failure comes from the bounded \<open>retry\<close>, which wraps the sell
  path as it wraps the buy path: \<open>sell_alt\<close> returns \<open>None\<close> exactly when 20
  consecutive runs of \<open>_sell_alt\<close> raise, and \<open>buy_alt\<close> exactly when 20 consecutive
  runs of \<open>_buy_alt\<close> raise (a run that returns never returns \<open>None\<close>).  On an
  exchange whose every account request raises both do so, after 20 requests.  The
  fill tracker retries without bound: while every status fetch raises,
  \<open>wait_for_order\<close> never returns.
\<close>

theorem sell_alt_terminal_failure:
  "(sell_alt rnd C a c w = Some (None, w')
      \<longleftrightarrow> raising_runs (priv_sell_alt rnd C a c) 20 0 (sleep 1 w) = Some w')
   \<and> (buy_alt rnd C a c w = Some (None, w')
      \<longleftrightarrow> raising_runs (priv_buy_alt rnd C a c) 20 0 (sleep 1 w) = Some w')
   \<and> ((\<forall>i. isl (get_account C i)) \<longrightarrow>
        (\<exists>w1. sell_alt rnd C a c w = Some (None, w1) \<and> tick w1 = tick w + 20)
        \<and> (\<exists>w1. buy_alt rnd C a c w = Some (None, w1) \<and> tick w1 = tick w + 20))
   \<and> ((\<forall>i. isl (get_order C i (a @ c) oid)) \<longrightarrow> wait_for_order C a c oid w = None)"
proof -
  have s: "sell_alt rnd C a c w = Some (None, w')
      \<longleftrightarrow> raising_runs (priv_sell_alt rnd C a c) 20 0 (sleep 1 w) = Some w'"
    unfolding sell_alt_def by (rule retry_none_iff_raising_runs) (rule priv_sell_alt_not_none)
  have b: "buy_alt rnd C a c w = Some (None, w')
      \<longleftrightarrow> raising_runs (priv_buy_alt rnd C a c) 20 0 (sleep 1 w) = Some w'"
    unfolding buy_alt_def by (rule retry_none_iff_raising_runs) (rule priv_buy_alt_not_none)
  have down: "(\<exists>w1. sell_alt rnd C a c w = Some (None, w1) \<and> tick w1 = tick w + 20)
        \<and> (\<exists>w1. buy_alt rnd C a c w = Some (None, w1) \<and> tick w1 = tick w + 20)"
    if "\<forall>i. isl (get_account C i)"
    using sell_alt_no_account [OF that] buy_alt_no_account [OF that] by blast
  have poll: "wait_for_order C a c oid w = None" if "\<forall>i. isl (get_order C i (a @ c) oid)"
    using that by (rule wait_for_order_no_answer)
  from s b down poll show ?thesis by blast
qed

theorem sell_alt_terminal_failure_witness:
  "(\<exists>w1. sell_alt exact down_client ''ALT'' ''BTC'' start = Some (None, w1) \<and> tick w1 = 20
        \<and> raising_runs (priv_sell_alt exact down_client ''ALT'' ''BTC'') 20 0 (sleep 1 start)
            = Some w1)
   \<and> (\<exists>w1. buy_alt exact down_client ''ALT'' ''BTC'' start = Some (None, w1) \<and> tick w1 = 20)
   \<and> wait_for_order down_client ''ALT'' ''BTC'' 1 start = None"
proof -
  have acc: "\<forall>i. isl (get_account down_client i)" by (simp add: down_client_def)
  have ord: "\<forall>i. isl (get_order down_client i (''ALT'' @ ''BTC'') 1)"
    by (simp add: down_client_def)
  note inst = sell_alt_terminal_failure [of exact down_client "''ALT''" "''BTC''" start _ 1]
  from inst acc obtain w1 where
    w1: "sell_alt exact down_client ''ALT'' ''BTC'' start = Some (None, w1)" "tick w1 = tick start + 20"
    by blast
  from sell_alt_terminal_failure [of exact down_client "''ALT''" "''BTC''" start w1 1] w1(1)
  have "raising_runs (priv_sell_alt exact down_client ''ALT'' ''BTC'') 20 0 (sleep 1 start) = Some w1"
    by blast
  with w1 have 1: "\<exists>w1. sell_alt exact down_client ''ALT'' ''BTC'' start = Some (None, w1)
      \<and> tick w1 = 20
      \<and> raising_runs (priv_sell_alt exact down_client ''ALT'' ''BTC'') 20 0 (sleep 1 start) = Some w1"
    by (auto simp: start_def)
  from inst acc have "\<exists>w1. buy_alt exact down_client ''ALT'' ''BTC'' start = Some (None, w1)
      \<and> tick w1 = tick start + 20"
    by blast
  then have 2: "\<exists>w1. buy_alt exact down_client ''ALT'' ''BTC'' start = Some (None, w1)
      \<and> tick w1 = 20"
    by (simp add: start_def)
  from inst ord have 3: "wait_for_order down_client ''ALT'' ''BTC'' 1 start = None" by blast
  from 1 2 3 show ?thesis by blast
qed

section \<open>Absent balances and prices\<close>

lemma get_market_ticker_price_eq:
  "get_market_ticker_price C s w = (price_at C s (tick w), request GetSymbolTicker w)"
  by (simp add: get_market_ticker_price_def price_at_def split: sum.splits)

lemma get_alt_tick_eq:
  "get_alt_tick C a c w = (tick_at C a c (tick w), request (GetSymbolInfo (a @ c)) w)"
  by (simp add: tick_at_def get_alt_tick_def get_symbol_filter_def
      split: sum.splits option.splits)

lemma priv_buy_alt_raises:
  assumes "balance_at C alt (tick w) = Inr ab" "balance_at C crypto (tick w + 1) = Inr cb"
    "price_at C (alt @ crypto) (tick w + 2) = Inr tp" "tick_at C alt crypto (tick w + 3) = Inr t"
    "buy_quantity_arith rnd cb tp t = Inl e"
  shows "\<exists>w'. priv_buy_alt rnd C alt crypto w = Some (Inl e, w') \<and> tick w' = tick w + 4"
  using assms
  by (simp add: priv_buy_alt_def get_currency_balance_eq get_market_ticker_price_eq
      buy_quantity_def get_alt_tick_eq numeral_2_eq_2 numeral_3_eq_3)

lemma priv_sell_alt_raises:
  assumes "balance_at C alt (tick w) = Inr ab" "balance_at C crypto (tick w + 1) = Inr cb"
    "tick_at C alt crypto (tick w + 2) = Inr t" "sell_quantity_arith rnd ab t = Inl e"
  shows "\<exists>w'. priv_sell_alt rnd C alt crypto w = Some (Inl e, w') \<and> tick w' = tick w + 3"
  using assms
  by (simp add: priv_sell_alt_def get_currency_balance_eq sell_quantity_def get_alt_tick_eq
      numeral_2_eq_2)

lemma buy_absent_balance: "buy_quantity_arith rnd None tp t = Inl TypeError"
  by (simp add: buy_quantity_arith_def)

lemma buy_absent_price:
  "\<not> isl (ten_pow_float rnd t) \<Longrightarrow> buy_quantity_arith rnd (Some b) None t = Inl TypeError"
  by (cases "ten_pow_float rnd t") (simp_all add: buy_quantity_arith_def)

lemma buy_zero_price:
  "\<not> isl (ten_pow_float rnd t) \<Longrightarrow> buy_quantity_arith rnd (Some b) (Some 0) t = Inl ZeroDivisionError"
  by (cases "ten_pow_float rnd t") (simp_all add: buy_quantity_arith_def py_truediv_def)

lemma sell_absent_balance: "sell_quantity_arith rnd None t = Inl TypeError"
  by (simp add: sell_quantity_arith_def)

lemma confirm_loop_absent:
  "b \<le> x0 \<Longrightarrow> \<forall>i<k. \<exists>x. balance_at C alt (tick w + i) = Inr (Some x) \<and> b \<le> x \<Longrightarrow>
   balance_at C alt (tick w + k) = Inr None \<Longrightarrow>
   \<exists>w'. confirm_loop C alt (Some b) (Some x0) w = Some (Inl TypeError, w')
     \<and> tick w' = tick w + (k + 1)"
proof (induction k arbitrary: x0 w)
  case 0
  then show ?case
    by (subst confirm_loop.simps, simp add: py_ge_def get_currency_balance_eq,
        subst confirm_loop.simps, simp add: py_ge_def)
next
  case (Suc k)
  from Suc.prems(2) obtain x1 where x1: "balance_at C alt (tick w) = Inr (Some x1)" "b \<le> x1"
    by force
  let ?w = "request GetAccount w"
  have "\<exists>w'. confirm_loop C alt (Some b) (Some x1) ?w = Some (Inl TypeError, w')
     \<and> tick w' = tick ?w + (k + 1)"
    using Suc.prems x1 by (intro Suc.IH) auto
  moreover have "confirm_loop C alt (Some b) (Some x0) w = confirm_loop C alt (Some b) (Some x1) ?w"
    using Suc.prems(1) x1 by (subst confirm_loop.simps) (simp add: py_ge_def get_currency_balance_eq)
  ultimately show ?case by auto
qed

lemma confirm_balance_absent:
  assumes "\<forall>i<k. \<exists>x. balance_at C alt (tick w + i) = Inr (Some x) \<and> b \<le> x"
    "balance_at C alt (tick w + k) = Inr None"
  shows "\<exists>w'. confirm_balance C alt (Some b) w = Some (Inl TypeError, w')
     \<and> tick w' = tick w + (k + 1)"
proof (cases k)
  case 0
  then show ?thesis using assms
    by (simp add: confirm_balance_def get_currency_balance_eq)
       (subst confirm_loop.simps, simp add: py_ge_def)
next
  case (Suc j)
  from assms(1) Suc obtain x0 where x0: "balance_at C alt (tick w) = Inr (Some x0)" "b \<le> x0"
    by force
  let ?w = "request GetAccount w"
  have "\<exists>w'. confirm_loop C alt (Some b) (Some x0) ?w = Some (Inl TypeError, w')
     \<and> tick w' = tick ?w + (j + 1)"
    using assms Suc x0 by (intro confirm_loop_absent) auto
  then show ?thesis using Suc x0
    by (auto simp: confirm_balance_def get_currency_balance_eq)
qed

lemma balance_at_same_request:
  "balance_at C x i = Inr v \<Longrightarrow> \<exists>v'. balance_at C y i = Inr v'"
  by (auto simp: balance_at_def split: sum.splits)

lemma buy_alt_absent_quote:
  assumes q: "\<forall>i. balance_at C crypto i = Inr None"
    and p: "\<forall>i. \<not> isl (price_at C (alt @ crypto) i)"
    and t: "\<forall>i. \<not> isl (tick_at C alt crypto i)"
  shows "\<exists>w'. buy_alt rnd C alt crypto w = Some (None, w') \<and> tick w' = tick w + 80"
proof -
  have run: "\<exists>e w'. priv_buy_alt rnd C alt crypto w = Some (Inl e, w') \<and> tick w' = tick w + 4" for w
  proof -
    from q have "balance_at C crypto (tick w) = Inr None" by blast
    from balance_at_same_request [OF this] obtain ab where
      1: "balance_at C alt (tick w) = Inr ab" by blast
    from q have 2: "balance_at C crypto (tick w + 1) = Inr None" by blast
    from p obtain tp where 3: "price_at C (alt @ crypto) (tick w + 2) = Inr tp"
      by (metis sum.collapse(2))
    from t obtain tk where 4: "tick_at C alt crypto (tick w + 3) = Inr tk"
      by (metis sum.collapse(2))
    from priv_buy_alt_raises [OF 1 2 3 4 buy_absent_balance] show ?thesis by blast
  qed
  from retry_raises_ticks [of "priv_buy_alt rnd C alt crypto" 4 w] run
  show ?thesis by (simp add: buy_alt_def)
qed

lemma sell_alt_absent_alt:
  assumes q: "\<forall>i. balance_at C alt i = Inr None"
    and t: "\<forall>i. \<not> isl (tick_at C alt crypto i)"
  shows "\<exists>w'. sell_alt rnd C alt crypto w = Some (None, w') \<and> tick w' = tick w + 60"
proof -
  have run: "\<exists>e w'. priv_sell_alt rnd C alt crypto w = Some (Inl e, w') \<and> tick w' = tick w + 3" for w
  proof -
    from q have 1: "balance_at C alt (tick w) = Inr None" by blast
    from q have "balance_at C alt (tick w + 1) = Inr None" by blast
    from balance_at_same_request [OF this] obtain cb where
      2: "balance_at C crypto (tick w + 1) = Inr cb" by blast
    from t obtain tk where 3: "tick_at C alt crypto (tick w + 2) = Inr tk"
      by (metis sum.collapse(2))
    from priv_sell_alt_raises [OF 1 2 3 sell_absent_balance] show ?thesis by blast
  qed
  from retry_raises_ticks [of "priv_sell_alt rnd C alt crypto" 3 w] run
  show ?thesis by (simp add: sell_alt_def)
qed

lemma to_float_not_nan: "to_float rnd x \<noteq> NaN"
  by (simp add: to_float_def)

lemma py_truediv_price: "p \<noteq> 0 \<Longrightarrow> \<not> isl (py_truediv rnd x p)"
  by (simp add: py_truediv_def split: pyfloat.splits)

lemma py_truediv_not_nan: "x \<noteq> NaN \<Longrightarrow> py_truediv rnd x y = Inr z \<Longrightarrow> z \<noteq> NaN"
  by (auto simp: py_truediv_def to_float_not_nan split: pyfloat.splits if_splits)

lemma int_to_float_error: "int_to_float rnd k = Inl e \<Longrightarrow> e = OverflowError"
  by (auto simp: int_to_float_def split: pyfloat.splits)

lemma ten_pow_float_error: "ten_pow_float rnd t = Inl e \<Longrightarrow> e = OverflowError"
  by (auto simp: ten_pow_float_def dest: int_to_float_error split: if_splits)

lemma floor_at_tick_error:
  assumes "x \<noteq> NaN" "floor_at_tick rnd x T = Inl e"
  shows "e = OverflowError \<or> e = ZeroDivisionError \<and> T = 0"
proof (cases "py_floor x")
  case (Inl e')
  then have "e' = OverflowError" using assms(1) by (auto simp: py_floor_def split: pyfloat.splits)
  then show ?thesis using assms(2) Inl by (simp add: floor_at_tick_def)
next
  case k: (Inr k)
  show ?thesis
  proof (cases "int_to_float rnd k")
    case (Inl e')
    then show ?thesis using assms(2) k int_to_float_error [OF Inl]
      by (simp add: floor_at_tick_def)
  next
    case (Inr kf)
    then show ?thesis using assms(2) k
      by (auto simp: floor_at_tick_def py_truediv_def split: if_splits)
  qed
qed

lemma sell_present_error:
  assumes "sell_quantity_arith rnd (Some b) t = Inl e"
  shows "e = OverflowError \<or> e = ZeroDivisionError \<and> ten_pow_float rnd t = Inr 0"
proof (cases "ten_pow_float rnd t")
  case (Inl e')
  then show ?thesis using assms ten_pow_float_error [OF Inl]
    by (simp add: sell_quantity_arith_def)
next
  case (Inr T)
  then have "floor_at_tick rnd (to_float rnd (b * T)) T = Inl e"
    using assms by (simp add: sell_quantity_arith_def)
  from floor_at_tick_error [OF to_float_not_nan this] Inr show ?thesis by auto
qed

lemma buy_present_error:
  assumes "p \<noteq> 0" "buy_quantity_arith rnd (Some b) (Some p) t = Inl e"
  shows "e = OverflowError \<or> e = ZeroDivisionError \<and> ten_pow_float rnd t = Inr 0"
proof (cases "ten_pow_float rnd t")
  case (Inl e')
  then show ?thesis using assms ten_pow_float_error [OF Inl]
    by (simp add: buy_quantity_arith_def)
next
  case (Inr T)
  from py_truediv_price [OF assms(1), of rnd "to_float rnd (b * T)"]
  obtain x where x: "py_truediv rnd (to_float rnd (b * T)) p = Inr x"
    by (metis sum.collapse(2))
  from py_truediv_not_nan [OF to_float_not_nan x] have "x \<noteq> NaN" .
  moreover have "floor_at_tick rnd x T = Inl e"
    using assms(2) Inr x by (simp add: buy_quantity_arith_def)
  ultimately show ?thesis using floor_at_tick_error Inr by blast
qed

text \<open>
  C10, amended.  The arithmetic and the comparison have no guard of their own, and
  what they raise leaves the run and is counted by \<open>retry\<close> as a failed attempt.
  A run of \<open>_buy_alt\<close> raises after its fourth request: \<open>TypeError\<close> on an absent quote
  balance, and, when \<open>10 ** alt_tick\<close> is a float, \<open>TypeError\<close> on an absent price and
  \<open>ZeroDivisionError\<close> on the price 0.  A run of \<open>_sell_alt\<close> raises \<open>TypeError\<close>
  after its third request on an absent alt balance, and its confirmation loop raises
  \<open>TypeError\<close> at the first absent alt balance it fetches.  With a quote balance that
  stays absent \<open>buy_alt\<close> returns \<open>None\<close> after 20 runs, 80 requests; with an alt
  balance that stays absent \<open>sell_alt\<close> returns \<open>None\<close> after 20 runs, 60 requests.
  With present values and a positive price, the division by the price and the
  comparison do not raise, and the quantity arithmetic raises no \<open>TypeError\<close>: it can
  raise \<open>OverflowError\<close>, or \<open>ZeroDivisionError\<close> when \<open>10 ** alt_tick\<close> is the float 0.
\<close>

theorem absent_values_unguarded:
  "(balance_at C alt (tick w) = Inr ab \<and> balance_at C crypto (tick w + 1) = Inr None
      \<and> price_at C (alt @ crypto) (tick w + 2) = Inr tp
      \<and> tick_at C alt crypto (tick w + 3) = Inr t \<longrightarrow>
      (\<exists>w'. priv_buy_alt rnd C alt crypto w = Some (Inl TypeError, w') \<and> tick w' = tick w + 4))
   \<and> (balance_at C alt (tick w) = Inr ab \<and> balance_at C crypto (tick w + 1) = Inr (Some b)
      \<and> price_at C (alt @ crypto) (tick w + 2) = Inr None
      \<and> tick_at C alt crypto (tick w + 3) = Inr t \<and> \<not> isl (ten_pow_float rnd t) \<longrightarrow>
      (\<exists>w'. priv_buy_alt rnd C alt crypto w = Some (Inl TypeError, w') \<and> tick w' = tick w + 4))
   \<and> (balance_at C alt (tick w) = Inr ab \<and> balance_at C crypto (tick w + 1) = Inr (Some b)
      \<and> price_at C (alt @ crypto) (tick w + 2) = Inr (Some 0)
      \<and> tick_at C alt crypto (tick w + 3) = Inr t \<and> \<not> isl (ten_pow_float rnd t) \<longrightarrow>
      (\<exists>w'. priv_buy_alt rnd C alt crypto w = Some (Inl ZeroDivisionError, w')
         \<and> tick w' = tick w + 4))
   \<and> (balance_at C alt (tick w) = Inr None \<and> balance_at C crypto (tick w + 1) = Inr cb
      \<and> tick_at C alt crypto (tick w + 2) = Inr t \<longrightarrow>
      (\<exists>w'. priv_sell_alt rnd C alt crypto w = Some (Inl TypeError, w') \<and> tick w' = tick w + 3))
   \<and> ((\<forall>i<k. \<exists>x. balance_at C alt (tick w + i) = Inr (Some x) \<and> b \<le> x)
      \<and> balance_at C alt (tick w + k) = Inr None \<longrightarrow>
      (\<exists>w'. confirm_balance C alt (Some b) w = Some (Inl TypeError, w')
         \<and> tick w' = tick w + (k + 1)))
   \<and> ((\<forall>i. balance_at C crypto i = Inr None) \<and> (\<forall>i. \<not> isl (price_at C (alt @ crypto) i))
      \<and> (\<forall>i. \<not> isl (tick_at C alt crypto i)) \<longrightarrow>
      (\<exists>w'. buy_alt rnd C alt crypto w = Some (None, w') \<and> tick w' = tick w + 80))
   \<and> ((\<forall>i. balance_at C alt i = Inr None) \<and> (\<forall>i. \<not> isl (tick_at C alt crypto i)) \<longrightarrow>
      (\<exists>w'. sell_alt rnd C alt crypto w = Some (None, w') \<and> tick w' = tick w + 60))
   \<and> (0 < p \<longrightarrow>
        \<not> isl (py_truediv rnd m p)
        \<and> (buy_quantity_arith rnd (Some b) (Some p) t = Inl e \<longrightarrow>
             e = OverflowError \<or> e = ZeroDivisionError \<and> ten_pow_float rnd t = Inr 0))
   \<and> (sell_quantity_arith rnd (Some b) t = Inl e \<longrightarrow>
        e = OverflowError \<or> e = ZeroDivisionError \<and> ten_pow_float rnd t = Inr 0)
   \<and> \<not> isl (py_ge (Some x') (Some y'))"
proof -
  have b1: "\<exists>w'. priv_buy_alt rnd C alt crypto w = Some (Inl TypeError, w') \<and> tick w' = tick w + 4"
    if "balance_at C alt (tick w) = Inr ab \<and> balance_at C crypto (tick w + 1) = Inr None
      \<and> price_at C (alt @ crypto) (tick w + 2) = Inr tp
      \<and> tick_at C alt crypto (tick w + 3) = Inr t"
    using that buy_absent_balance [of rnd tp t] by (intro priv_buy_alt_raises) auto
  have b2: "\<exists>w'. priv_buy_alt rnd C alt crypto w = Some (Inl TypeError, w') \<and> tick w' = tick w + 4"
    if "balance_at C alt (tick w) = Inr ab \<and> balance_at C crypto (tick w + 1) = Inr (Some b)
      \<and> price_at C (alt @ crypto) (tick w + 2) = Inr None
      \<and> tick_at C alt crypto (tick w + 3) = Inr t \<and> \<not> isl (ten_pow_float rnd t)"
    using that buy_absent_price [of rnd t b] by (intro priv_buy_alt_raises) auto
  have b3: "\<exists>w'. priv_buy_alt rnd C alt crypto w = Some (Inl ZeroDivisionError, w')
         \<and> tick w' = tick w + 4"
    if "balance_at C alt (tick w) = Inr ab \<and> balance_at C crypto (tick w + 1) = Inr (Some b)
      \<and> price_at C (alt @ crypto) (tick w + 2) = Inr (Some 0)
      \<and> tick_at C alt crypto (tick w + 3) = Inr t \<and> \<not> isl (ten_pow_float rnd t)"
    using that buy_zero_price [of rnd t b] by (intro priv_buy_alt_raises) auto
  have s1: "\<exists>w'. priv_sell_alt rnd C alt crypto w = Some (Inl TypeError, w') \<and> tick w' = tick w + 3"
    if "balance_at C alt (tick w) = Inr None \<and> balance_at C crypto (tick w + 1) = Inr cb
      \<and> tick_at C alt crypto (tick w + 2) = Inr t"
    using that sell_absent_balance [of rnd t] by (intro priv_sell_alt_raises) auto
  have k1: "\<exists>w'. confirm_balance C alt (Some b) w = Some (Inl TypeError, w')
         \<and> tick w' = tick w + (k + 1)"
    if "(\<forall>i<k. \<exists>x. balance_at C alt (tick w + i) = Inr (Some x) \<and> b \<le> x)
      \<and> balance_at C alt (tick w + k) = Inr None"
    using that by (intro confirm_balance_absent) auto
  have r1: "\<exists>w'. buy_alt rnd C alt crypto w = Some (None, w') \<and> tick w' = tick w + 80"
    if "(\<forall>i. balance_at C crypto i = Inr None) \<and> (\<forall>i. \<not> isl (price_at C (alt @ crypto) i))
      \<and> (\<forall>i. \<not> isl (tick_at C alt crypto i))"
    using that by (intro buy_alt_absent_quote) auto
  have r2: "\<exists>w'. sell_alt rnd C alt crypto w = Some (None, w') \<and> tick w' = tick w + 60"
    if "(\<forall>i. balance_at C alt i = Inr None) \<and> (\<forall>i. \<not> isl (tick_at C alt crypto i))"
    using that by (intro sell_alt_absent_alt) auto
  have p1: "\<not> isl (py_truediv rnd m p)
        \<and> (buy_quantity_arith rnd (Some b) (Some p) t = Inl e \<longrightarrow>
             e = OverflowError \<or> e = ZeroDivisionError \<and> ten_pow_float rnd t = Inr 0)"
    if "0 < p"
  proof -
    from that have "p \<noteq> 0" by simp
    then show ?thesis using py_truediv_price [of p rnd m] buy_present_error [of p rnd b t e]
      by blast
  qed
  have p2: "sell_quantity_arith rnd (Some b) t = Inl e \<longrightarrow>
        e = OverflowError \<or> e = ZeroDivisionError \<and> ten_pow_float rnd t = Inr 0"
    using sell_present_error [of rnd b t e] by blast
  have p3: "\<not> isl (py_ge (Some x') (Some y'))" by (simp add: py_ge_def)
  from b1 b2 b3 s1 k1 r1 r2 p1 p2 p3 show ?thesis by blast
qed

lemma sell_client_tick_at: "tick_at sell_client a c i = Inr 3"
  by (simp add: tick_at_def get_alt_tick_def get_symbol_filter_def getitem_def sell_client_def
      tick_of_step_size_def str_find_def)

lemma sell_client_run_no_quote:
  "map_option fst (priv_sell_alt exact sell_client ''ALT'' ''XYZ'' start)
     = Some (Inr (Some \<lparr>orderId = 1\<rparr>))"
proof -
  have "sell_quantity_arith exact (Some 12.3456) 3 = Inr (Float 12.345)"
    by (simp add: sell_quantity_arith_def ten_pow_float_def floor_at_tick_def py_floor_def
        py_truediv_def int_to_float_exact to_float_exact)
  then have q: "sell_quantity_arith exact (Some (7716 / 625)) 3 = Inr (Float 12.345)"
    by simp
  show ?thesis
    by (simp add: priv_sell_alt_def sell_client_def start_def get_currency_balance_def
        sell_quantity_def get_alt_tick_def get_symbol_filter_def getitem_def
        tick_of_step_size_def str_find_def q
        wait_for_order_def confirm_balance_def py_ge_def
        emit_def info_def sleep_def request_def
        sell_loop.simps first_fetch.simps poll.simps confirm_loop.simps)
qed

text \<open>
  C10 as stated fails.  On \<open>sell_client\<close> the account has no balance for the quote
  asset XYZ.  \<open>buy_alt\<close> for ALT/XYZ meets the error in every run, retries, and returns
  \<open>None\<close>, the value of its defined failure; and a run of \<open>_sell_alt\<close> for ALT/XYZ,
  whose quote balance is absent as well, completes with its order.
\<close>

theorem absent_values_counterexample:
  "map_option fst (buy_alt exact sell_client ''ALT'' ''XYZ'' start) = Some None
   \<and> balance_at sell_client ''XYZ'' 1 = Inr None
   \<and> map_option fst (priv_sell_alt exact sell_client ''ALT'' ''XYZ'' start)
       = Some (Inr (Some \<lparr>orderId = 1\<rparr>))"
proof -
  have q: "\<forall>i. balance_at sell_client ''XYZ'' i = Inr None"
    by (simp add: balance_at_def sell_client_def)
  have p: "\<forall>i. \<not> isl (price_at sell_client (''ALT'' @ ''XYZ'') i)"
    by (simp add: price_at_def sell_client_def)
  have t: "\<forall>i. \<not> isl (tick_at sell_client ''ALT'' ''XYZ'' i)"
    by (simp add: sell_client_tick_at)
  from buy_alt_absent_quote [OF q p t, of exact start]
  have "map_option fst (buy_alt exact sell_client ''ALT'' ''XYZ'' start) = Some None" by auto
  with q sell_client_run_no_quote show ?thesis by blast
qed

theorem absent_values_unguarded_witness:
  "(\<exists>w'. priv_buy_alt exact sell_client ''ALT'' ''XYZ'' start = Some (Inl TypeError, w')
        \<and> tick w' = 4)
   \<and> (\<exists>w'. priv_buy_alt exact sell_client ''BTC'' ''ALT'' start = Some (Inl TypeError, w')
        \<and> tick w' = 4)
   \<and> (\<exists>w'. priv_buy_alt exact zero_price_client ''ALT'' ''BTC'' start
          = Some (Inl ZeroDivisionError, w') \<and> tick w' = 4)
   \<and> (\<exists>w'. priv_sell_alt exact sell_client ''XYZ'' ''BTC'' start = Some (Inl TypeError, w')
        \<and> tick w' = 3)
   \<and> (\<exists>w'. confirm_balance sell_client ''XYZ'' (Some 1) start = Some (Inl TypeError, w')
        \<and> tick w' = 1)
   \<and> (\<exists>w'. buy_alt exact sell_client ''ALT'' ''XYZ'' start = Some (None, w') \<and> tick w' = 80)
   \<and> (\<exists>w'. sell_alt exact sell_client ''XYZ'' ''BTC'' start = Some (None, w') \<and> tick w' = 60)
   \<and> \<not> isl (py_truediv exact (Float 1000) 0.01)"
proof -
  have t: "tick_at sell_client a c i = Inr 3" for a c i by (rule sell_client_tick_at)
  have pw: "\<not> isl (ten_pow_float exact 3)"
    by (simp add: ten_pow_float_def int_to_float_exact)
  have i1: "balance_at sell_client ''ALT'' (tick start) = Inr (Some 12.3456)
      \<and> balance_at sell_client ''XYZ'' (tick start + 1) = Inr None
      \<and> price_at sell_client (''ALT'' @ ''XYZ'') (tick start + 2) = Inr None
      \<and> tick_at sell_client ''ALT'' ''XYZ'' (tick start + 3) = Inr 3"
    using t [of "''ALT''" "''XYZ''" "tick start + 3"]
    by (simp add: balance_at_def price_at_def sell_client_def start_def)
  have i2: "balance_at sell_client ''BTC'' (tick start) = Inr (Some 1)
      \<and> balance_at sell_client ''ALT'' (tick start + 1) = Inr (Some 12.3456)
      \<and> price_at sell_client (''BTC'' @ ''ALT'') (tick start + 2) = Inr None
      \<and> tick_at sell_client ''BTC'' ''ALT'' (tick start + 3) = Inr 3
      \<and> \<not> isl (ten_pow_float exact 3)"
    using t [of "''BTC''" "''ALT''" "tick start + 3"] pw
    by (simp add: balance_at_def price_at_def sell_client_def start_def)
  have i3: "balance_at zero_price_client ''ALT'' (tick start) = Inr (Some 12.3456)
      \<and> balance_at zero_price_client ''BTC'' (tick start + 1) = Inr (Some 1)
      \<and> price_at zero_price_client (''ALT'' @ ''BTC'') (tick start + 2) = Inr (Some 0)
      \<and> tick_at zero_price_client ''ALT'' ''BTC'' (tick start + 3) = Inr 3
      \<and> \<not> isl (ten_pow_float exact 3)"
    using pw
    by (simp add: balance_at_def price_at_def zero_price_client_def sell_client_def start_def
        tick_at_def get_alt_tick_def get_symbol_filter_def getitem_def tick_of_step_size_def
        str_find_def)
  have i4: "balance_at sell_client ''XYZ'' (tick start) = Inr None
      \<and> balance_at sell_client ''BTC'' (tick start + 1) = Inr (Some 1)
      \<and> tick_at sell_client ''XYZ'' ''BTC'' (tick start + 2) = Inr 3"
    using t [of "''XYZ''" "''BTC''" "tick start + 2"]
    by (simp add: balance_at_def sell_client_def start_def)
  have i5: "(\<forall>i<0. \<exists>x. balance_at sell_client ''XYZ'' (tick start + i) = Inr (Some x) \<and> 1 \<le> x)
      \<and> balance_at sell_client ''XYZ'' (tick start + 0) = Inr None"
    by (simp add: balance_at_def sell_client_def)
  have i6: "(\<forall>i. balance_at sell_client ''XYZ'' i = Inr None)
      \<and> (\<forall>i. \<not> isl (price_at sell_client (''ALT'' @ ''XYZ'') i))
      \<and> (\<forall>i. \<not> isl (tick_at sell_client ''ALT'' ''XYZ'' i))"
    by (simp add: t) (simp add: balance_at_def price_at_def sell_client_def)
  have i7: "(\<forall>i. balance_at sell_client ''XYZ'' i = Inr None)
      \<and> (\<forall>i. \<not> isl (tick_at sell_client ''XYZ'' ''BTC'' i))"
    by (simp add: t) (simp add: balance_at_def sell_client_def)
  have a1: "\<exists>w'. priv_buy_alt exact sell_client ''ALT'' ''XYZ'' start = Some (Inl TypeError, w')
        \<and> tick w' = 4"
    using absent_values_unguarded [of sell_client "''ALT''" start "Some 12.3456" "''XYZ''" None 3
        exact] i1
    by (simp add: start_def)
  have a2: "\<exists>w'. priv_buy_alt exact sell_client ''BTC'' ''ALT'' start = Some (Inl TypeError, w')
        \<and> tick w' = 4"
    using absent_values_unguarded [of sell_client "''BTC''" start "Some 1" "''ALT''" _ 3
        exact "12.3456"] i2
    by (simp add: start_def)
  have a3: "\<exists>w'. priv_buy_alt exact zero_price_client ''ALT'' ''BTC'' start
          = Some (Inl ZeroDivisionError, w') \<and> tick w' = 4"
    using absent_values_unguarded [of zero_price_client "''ALT''" start "Some 12.3456" "''BTC''"
        _ 3 exact 1] i3
    by (simp add: start_def)
  have a4: "\<exists>w'. priv_sell_alt exact sell_client ''XYZ'' ''BTC'' start = Some (Inl TypeError, w')
        \<and> tick w' = 3"
    using absent_values_unguarded [of sell_client "''XYZ''" start _ "''BTC''" _ 3
        exact _ "Some 1"] i4
    by (simp add: start_def)
  have a5: "\<exists>w'. confirm_balance sell_client ''XYZ'' (Some 1) start = Some (Inl TypeError, w')
        \<and> tick w' = 1"
    using absent_values_unguarded [of sell_client "''XYZ''" start _ _ _ _ _ 1 _ 0] i5
    by (simp add: start_def)
  have a6: "\<exists>w'. buy_alt exact sell_client ''ALT'' ''XYZ'' start = Some (None, w') \<and> tick w' = 80"
    using absent_values_unguarded [of sell_client "''ALT''" start _ "''XYZ''" _ _ exact] i6
    by (simp add: start_def)
  have a7: "\<exists>w'. sell_alt exact sell_client ''XYZ'' ''BTC'' start = Some (None, w') \<and> tick w' = 60"
    using absent_values_unguarded [of sell_client "''XYZ''" start _ "''BTC''" _ _ exact] i7
    by (simp add: start_def)
  have a8: "\<not> isl (py_truediv exact (Float 1000) 0.01)"
    using absent_values_unguarded [of _ _ _ _ _ _ _ exact _ _ _ "0.01" "Float 1000"]
    by simp
  from a1 a2 a3 a4 a5 a6 a7 a8 show ?thesis by blast
qed

section \<open>Buy quantity and the price of the order\<close>














text \<open>
  The rounding of C2 in \<open>buy_quantity\<close>: with the quote balance 92576554.57023999,
  the price 1.0 and the tick exponent 5, the quantity is 92576554.57024, and its cost at
  the price 1.0 exceeds the balance.
\<close>

theorem buy_quantity_rounds_up:
  "buy_quantity_arith binary64 (Some (3106353705121407 / 2 ^ 25)) (Some 1) 5
     = Inr (Float (6212707410242815 / 2 ^ 26))
   \<and> (3106353705121407 / 2 ^ 25 :: real) < 6212707410242815 / 2 ^ 26 * 1"
proof -
  have t: "ten_pow_float binary64 5 = Inr 100000"
    unfolding ten_pow_float_def by (simp, rule int_to_float_eq [where y = 100000])
      (simp_all add: binary64_ten_pow)
  have m: "to_float binary64 (3106353705121407 / 2 ^ 25 * 100000) = Float 9257655457024"
    by (rule to_float_eq, rule binary64_product) simp_all
  have d: "py_truediv binary64 (Float 9257655457024) 1 = Inr (Float 9257655457024)"
    unfolding py_truediv_def by (simp, rule to_float_eq) (simp_all add: binary64_floor)
  have k: "int_to_float binary64 9257655457024 = Inr 9257655457024"
    by (rule int_to_float_eq) (simp_all add: binary64_floor)
  have q0: "to_float binary64 (9257655457024 / 100000) = Float (6212707410242815 / 2 ^ 26)"
    by (rule to_float_eq, rule binary64_quotient) simp_all
  have q: "py_truediv binary64 (Float 9257655457024) 100000
      = Inr (Float (6212707410242815 / 2 ^ 26))"
    unfolding py_truediv_def by (simp only: pyfloat.case q0) simp
  have "buy_quantity_arith binary64 (Some (3106353705121407 / 2 ^ 25)) (Some 1) 5
     = Inr (Float (6212707410242815 / 2 ^ 26))"
    unfolding buy_quantity_arith_def floor_at_tick_def
    by (simp only: option.case sum.case t m d k q py_floor_def pyfloat.case floor_numeral)
  moreover have "(3106353705121407 / 2 ^ 25 :: real) < 6212707410242815 / 2 ^ 26 * 1" by simp
  ultimately show ?thesis by blast
qed

end
